theory Spec2Isabelle
  imports Complex_Main "HOL-Library.Char_ord" "HOL-Library.List_Lexorder" "HOL-Library.AList"
begin

section \<open>Tensors\<close>

text \<open>
  A tensor is its list of sizes together with its elements in row-major (contiguous)
  order, as the framework stores it. Elements of floating-point tensors are modelled by
  real numbers; the special values (NaN, infinities) are outside the model.
\<close>

record 'a tensor =
  shape :: "nat list"
  data :: "'a list"

definition numel :: "'a tensor \<Rightarrow> nat" where
  "numel t = prod_list (shape t)"

definition wf_tensor :: "'a tensor \<Rightarrow> bool" where
  "wf_tensor t = (length (data t) = numel t)"

text \<open>\<^verbatim>\<open>torch.ones_like(t)\<close>, \<^verbatim>\<open>-t\<close>, \<^verbatim>\<open>t >= c\<close> and \<^verbatim>\<open>torch.where(cond, a, b)\<close> on tensors
  of one common shape.\<close>

definition ones_like :: "real tensor \<Rightarrow> real tensor" where
  "ones_like t = \<lparr>shape = shape t, data = map (\<lambda>_. 1) (data t)\<rparr>"

definition neg :: "real tensor \<Rightarrow> real tensor" where
  "neg t = \<lparr>shape = shape t, data = map uminus (data t)\<rparr>"

definition ge_scalar :: "real tensor \<Rightarrow> real \<Rightarrow> bool tensor" where
  "ge_scalar t c = \<lparr>shape = shape t, data = map (\<lambda>v. c \<le> v) (data t)\<rparr>"

definition torch_where :: "bool tensor \<Rightarrow> real tensor \<Rightarrow> real tensor \<Rightarrow> real tensor" where
  "torch_where cond a b =
     \<lparr>shape = shape cond,
      data = map (\<lambda>(c, x, y). if c then x else y) (zip (data cond) (zip (data a) (data b)))\<rparr>"

section \<open>Straight-through binarization (binary\_KWS.py)\<close>

text \<open>
  \<^verbatim>\<open>BinarizeSTE.forward(ctx, input)\<close> and \<^verbatim>\<open>BinarizeSTE.backward(ctx, grad_output)\<close>.
  Neither touches the context.
\<close>

definition BinarizeSTE_forward :: "'ctx \<Rightarrow> real tensor \<Rightarrow> real tensor" where
  "BinarizeSTE_forward ctx input =
     torch_where (ge_scalar input 0) (ones_like input) (neg (ones_like input))"

definition BinarizeSTE_backward :: "'ctx \<Rightarrow> real tensor \<Rightarrow> real tensor" where
  "BinarizeSTE_backward ctx grad_output = grad_output"

text \<open>
  The sign with a closed non-negative side, \<open>v \<ge> 0 \<mapsto> +1\<close> and \<open>v < 0 \<mapsto> -1\<close>: the
  function the specification says the forward rule applies to every element. It is
  used in statements only, never in the model of the code.
\<close>

definition sign_pm :: "real \<Rightarrow> real" where
  "sign_pm v = (if 0 \<le> v then 1 else - 1)"

text \<open>\<^verbatim>\<open>binarize_ste = BinarizeSTE.apply\<close>: the forward rule, run with a fresh context.\<close>

definition binarize_ste :: "real tensor \<Rightarrow> real tensor" where
  "binarize_ste input = BinarizeSTE_forward () input"


section \<open>Errors\<close>

text \<open>The exceptions the scripts can raise, as values.\<close>

datatype error = RuntimeError | IndexError | KeyError | ValueError | ZeroDivisionError | OSError

section \<open>The binarized linear layer (binary\_KWS.py)\<close>

text \<open>
  Rows of a tensor along its last dimension: row \<open>i\<close> is the \<open>i\<close>-th block of
  \<open>last (shape t)\<close> consecutive elements.
\<close>

definition row :: "'a tensor \<Rightarrow> nat \<Rightarrow> 'a list" where
  "row t i = take (last (shape t)) (drop (i * last (shape t)) (data t))"

definition rows :: "'a tensor \<Rightarrow> 'a list list" where
  "rows t = map (row t) [0..<prod_list (butlast (shape t))]"

definition dot :: "real list \<Rightarrow> real list \<Rightarrow> real" where
  "dot xs ys = sum_list (map2 (*) xs ys)"

text \<open>
  \<^verbatim>\<open>F.linear(input, weight, bias)\<close>: input of shape \<open>(*, in_features)\<close>, weight of shape
  \<open>(out_features, in_features)\<close>, bias of shape \<open>(out_features)\<close> or absent, as
  \<^verbatim>\<open>nn.Linear\<close> creates them; the output has shape \<open>(*, out_features)\<close> and
  \<open>y[.., j] = (\<Sum>k. x[.., k] * w[j, k]) + b[j]\<close>. Mismatching sizes raise.
\<close>

definition F_linear :: "real tensor \<Rightarrow> real tensor \<Rightarrow> real tensor option \<Rightarrow> error + real tensor" where
  "F_linear input w b =
     (case shape w of
        [out_features, in_features] \<Rightarrow>
          if shape input = [] \<or> last (shape input) \<noteq> in_features then Inl RuntimeError
          else (case b of
                  None \<Rightarrow>
                    Inr \<lparr>shape = butlast (shape input) @ [out_features],
                         data = concat (map (\<lambda>x. map (\<lambda>wj. dot x wj) (rows w)) (rows input))\<rparr>
                | Some bt \<Rightarrow>
                    if shape bt \<noteq> [out_features] then Inl RuntimeError
                    else
                      Inr \<lparr>shape = butlast (shape input) @ [out_features],
                           data = concat (map (\<lambda>x. map2 (\<lambda>wj bj. dot x wj + bj) (rows w) (data bt))
                                            (rows input))\<rparr>)
      | _ \<Rightarrow> Inl RuntimeError)"

text \<open>
  \<^verbatim>\<open>class BinarizeLinearSTE(nn.Linear)\<close>: the stored parameters, and its \<^verbatim>\<open>forward\<close>.
  The layer is passed in and returned, so that what the call does to the stored
  parameters is part of the result.
\<close>

record BinarizeLinearSTE =
  weight :: "real tensor"
  bias :: "real tensor option"

definition BinarizeLinearSTE_forward ::
  "BinarizeLinearSTE \<Rightarrow> real tensor \<Rightarrow> BinarizeLinearSTE \<times> (error + real tensor)" where
  "BinarizeLinearSTE_forward self input =
     (let weight_bin = binarize_ste (weight self);
          bias_bin = (case bias self of Some b \<Rightarrow> Some (binarize_ste b) | None \<Rightarrow> None);
          input_bin = binarize_ste input;
          output = F_linear input_bin weight_bin bias_bin
      in (self, output))"

section \<open>Fixed-length waveforms\<close>

text \<open>
  A waveform is a 2-D tensor of shape \<open>(channels, samples)\<close>, as \<^verbatim>\<open>torchaudio.load\<close>
  returns it. \<^verbatim>\<open>waveform.size(1)\<close> is its number of samples, \<^verbatim>\<open>waveform[:, :n]\<close> keeps the
  first \<open>n\<close> samples of every channel, and \<^verbatim>\<open>torch.nn.functional.pad(waveform, (0, p))\<close>
  appends \<open>p\<close> zeros to every channel.
\<close>

definition is_waveform :: "real tensor \<Rightarrow> bool" where
  "is_waveform t = (length (shape t) = 2 \<and> wf_tensor t)"

definition size1 :: "'a tensor \<Rightarrow> nat" where
  "size1 t = shape t ! 1"

definition slice_cols :: "'a tensor \<Rightarrow> nat \<Rightarrow> 'a tensor" where
  "slice_cols t n =
     \<lparr>shape = butlast (shape t) @ [min n (last (shape t))],
      data = concat (map (take n) (rows t))\<rparr>"

definition pad_last :: "real tensor \<Rightarrow> nat \<Rightarrow> real tensor" where
  "pad_last t p =
     \<lparr>shape = butlast (shape t) @ [last (shape t) + p],
      data = concat (map (\<lambda>r. r @ replicate p 0) (rows t))\<rparr>"

subsection \<open>binary\_KWS.py, \<^verbatim>\<open>SpeechCommandsDataset.__getitem__\<close>, lines 79 to 89\<close>

definition sample_rate :: nat where
  "sample_rate = 16000"

text \<open>
  The resampler \<^verbatim>\<open>torchaudio.transforms.Resample(orig_freq, new_freq)\<close> is a library
  routine; it is a parameter of the model.
\<close>

definition KWS_resample :: "(nat \<Rightarrow> nat \<Rightarrow> real tensor \<Rightarrow> real tensor) \<Rightarrow> real tensor \<Rightarrow> nat \<Rightarrow> real tensor" where
  "KWS_resample Resample waveform sr =
     (if sr \<noteq> sample_rate then Resample sr sample_rate waveform else waveform)"

definition KWS_uniform_length :: "real tensor \<Rightarrow> real tensor" where
  "KWS_uniform_length waveform =
     (if size1 waveform < sample_rate
      then (let padding = sample_rate - size1 waveform in pad_last waveform padding)
      else slice_cols waveform sample_rate)"

definition KWS_fixed_length :: "(nat \<Rightarrow> nat \<Rightarrow> real tensor \<Rightarrow> real tensor) \<Rightarrow> real tensor \<Rightarrow> nat \<Rightarrow> real tensor" where
  "KWS_fixed_length Resample waveform sr = KWS_uniform_length (KWS_resample Resample waveform sr)"

subsection \<open>first.py, \<^verbatim>\<open>SpeechCommandsDataset._preprocess_audio\<close>\<close>

text \<open>
  \<^verbatim>\<open>num_samples = int(fixed_length * sample_rate)\<close> with \<^verbatim>\<open>fixed_length = 1\<close>; here
  \<open>sample_rate\<close> is the argument, the native rate of the file that was loaded.
\<close>

definition First_preprocess_audio :: "real tensor \<Rightarrow> nat \<Rightarrow> real tensor" where
  "First_preprocess_audio waveform native_rate =
     (let fixed_length = 1;
          num_samples = fixed_length * native_rate
      in if size1 waveform > num_samples
         then slice_cols waveform num_samples
         else (let padding = num_samples - size1 waveform in pad_last waveform padding))"

text \<open>
  What the specification asks of one channel for a target of \<open>n\<close> samples: the first
  \<open>n\<close> samples are kept and a shorter channel is filled up with zeros on the right. It is
  used in statements only.
\<close>

definition fit_to :: "nat \<Rightarrow> real list \<Rightarrow> real list" where
  "fit_to n r = take n r @ replicate (n - length r) 0"

section \<open>Dataset construction\<close>

text \<open>
  The part of the file system the builders read: a directory path is mapped to the names
  of its entries; every other path (a plain file, or nothing) is mapped to \<open>None\<close>.
  \<^verbatim>\<open>os.path.isdir\<close>, \<^verbatim>\<open>os.listdir\<close> (which raises on a path that is no directory),
  \<^verbatim>\<open>os.path.join\<close> of two components and \<^verbatim>\<open>str.endswith\<close>.
\<close>

type_synonym filesystem = "string \<rightharpoonup> string list"

definition os_path_isdir :: "filesystem \<Rightarrow> string \<Rightarrow> bool" where
  "os_path_isdir fs p = (fs p \<noteq> None)"

definition os_listdir :: "filesystem \<Rightarrow> string \<Rightarrow> error + string list" where
  "os_listdir fs p = (case fs p of None \<Rightarrow> Inl OSError | Some names \<Rightarrow> Inr names)"

definition os_path_join :: "string \<Rightarrow> string \<Rightarrow> string" where
  "os_path_join a b =
     (if b \<noteq> [] \<and> hd b = CHR ''/'' then b
      else if a = [] \<or> last a = CHR ''/'' then a @ b
      else a @ ''/'' @ b)"

definition endswith :: "string \<Rightarrow> string \<Rightarrow> bool" where
  "endswith s suffix = (length suffix \<le> length s \<and> drop (length s - length suffix) s = suffix)"

subsection \<open>binary\_KWS.py\<close>

text \<open>
  \<^verbatim>\<open>num_classes = len(commands)\<close> and the dictionary comprehension
  \<^verbatim>\<open>{command: idx for idx, command in enumerate(commands)}\<close>: entries are stored in order,
  a later entry for the same key replaces the earlier one.
\<close>

definition num_classes :: "string list \<Rightarrow> nat" where
  "num_classes cmds = length cmds"

definition command_to_index :: "string list \<Rightarrow> (string \<rightharpoonup> nat)" where
  "command_to_index cmds =
     foldl (\<lambda>m (idx, command). m(command \<mapsto> idx)) Map.empty (enumerate 0 cmds)"

text \<open>
  \<^verbatim>\<open>SpeechCommandsDataset.__init__\<close>. The inner loop over the entries of one command
  directory; the look-up \<^verbatim>\<open>command_to_index[command]\<close> raises \<^verbatim>\<open>KeyError\<close> on a missing key.
\<close>

fun KWS_scan_files ::
  "(string \<rightharpoonup> nat) \<Rightarrow> string \<Rightarrow> string \<Rightarrow> string list \<Rightarrow> (string \<times> nat) list
     \<Rightarrow> error + (string \<times> nat) list" where
  "KWS_scan_files c2i command command_dir [] smpls = Inr smpls"
| "KWS_scan_files c2i command command_dir (filename # rest) smpls =
     (if endswith filename ''.wav'' then
        (let filepath = os_path_join command_dir filename in
         case c2i command of
           None \<Rightarrow> Inl KeyError
         | Some label \<Rightarrow> KWS_scan_files c2i command command_dir rest (smpls @ [(filepath, label)]))
      else KWS_scan_files c2i command command_dir rest smpls)"

text \<open>
  The outer loop over the commands. The state is the list of samples and what has been
  printed so far.
\<close>

definition KWS_warning :: "string \<Rightarrow> string" where
  "KWS_warning command_dir = ''Attenzione: La cartella '' @ command_dir @ '' non esiste.''"

fun KWS_scan_commands ::
  "filesystem \<Rightarrow> (string \<rightharpoonup> nat) \<Rightarrow> string \<Rightarrow> string list
     \<Rightarrow> (string \<times> nat) list \<times> string list \<Rightarrow> error + ((string \<times> nat) list \<times> string list)" where
  "KWS_scan_commands fs c2i ddir [] st = Inr st"
| "KWS_scan_commands fs c2i ddir (command # rest) (smpls, out) =
     (let command_dir = os_path_join ddir command in
      if os_path_isdir fs command_dir then
        (case os_listdir fs command_dir of
           Inl e \<Rightarrow> Inl e
         | Inr names \<Rightarrow>
             (case KWS_scan_files c2i command command_dir names smpls of
                Inl e \<Rightarrow> Inl e
              | Inr smpls' \<Rightarrow> KWS_scan_commands fs c2i ddir rest (smpls', out)))
      else KWS_scan_commands fs c2i ddir rest (smpls, out @ [KWS_warning command_dir]))"

record KWS_dataset =
  kws_dataset_dir :: string
  kws_commands :: "string list"
  kws_samples :: "(string \<times> nat) list"

definition KWS_init ::
  "filesystem \<Rightarrow> (string \<rightharpoonup> nat) \<Rightarrow> string \<Rightarrow> string list \<Rightarrow> string list
     \<Rightarrow> error + (KWS_dataset \<times> string list)" where
  "KWS_init fs c2i ddir cmds out =
     (case KWS_scan_commands fs c2i ddir cmds ([], out) of
        Inl e \<Rightarrow> Inl e
      | Inr (smpls, out') \<Rightarrow>
          Inr (\<lparr>kws_dataset_dir = ddir, kws_commands = cmds, kws_samples = smpls\<rparr>, out'))"

text \<open>
  \<^verbatim>\<open>full_dataset = SpeechCommandsDataset(dataset_dir, commands, transform=transform)\<close>: the
  builder runs on the list the module-level dictionary was built from.
\<close>

definition KWS_full_dataset ::
  "filesystem \<Rightarrow> string \<Rightarrow> string list \<Rightarrow> string list \<Rightarrow> error + (KWS_dataset \<times> string list)" where
  "KWS_full_dataset fs ddir cmds out = KWS_init fs (command_to_index cmds) ddir cmds out"

text \<open>
  What one command contributes, written without the loop: the samples of its directory
  (none when the directory is missing) and the warning (none when the directory is
  there). Both are used in statements about the loop only.
\<close>

definition KWS_command_samples ::
  "filesystem \<Rightarrow> (string \<rightharpoonup> nat) \<Rightarrow> string \<Rightarrow> string \<Rightarrow> (string \<times> nat) list" where
  "KWS_command_samples fs c2i ddir command =
     (case (fs (os_path_join ddir command), c2i command) of
        (Some names, Some label) \<Rightarrow>
          map (\<lambda>f. (os_path_join (os_path_join ddir command) f, label))
            (filter (\<lambda>f. endswith f ''.wav'') names)
      | _ \<Rightarrow> [])"

definition KWS_command_warnings :: "filesystem \<Rightarrow> string \<Rightarrow> string \<Rightarrow> string list" where
  "KWS_command_warnings fs ddir command =
     (if os_path_isdir fs (os_path_join ddir command) then []
      else [KWS_warning (os_path_join ddir command)])"

subsection \<open>first.py\<close>

text \<open>
  \<^verbatim>\<open>SpeechCommandsDataset.__init__\<close>: the vocabulary is the sorted listing of the root
  directory, the label of a file is the position of its directory in that listing. The
  builder prints nothing; what has been printed so far is passed through.
\<close>

fun First_scan_commands ::
  "filesystem \<Rightarrow> string \<Rightarrow> (nat \<times> string) list \<Rightarrow> string list \<times> nat list
     \<Rightarrow> error + (string list \<times> nat list)" where
  "First_scan_commands fs root_dir [] st = Inr st"
| "First_scan_commands fs root_dir ((idx, command) # rest) (files_acc, labels_acc) =
     (let command_dir = os_path_join root_dir command in
      if os_path_isdir fs command_dir then
        (case os_listdir fs command_dir of
           Inl e \<Rightarrow> Inl e
         | Inr names \<Rightarrow>
             (let files = filter (\<lambda>f. endswith f ''.wav'') names in
              First_scan_commands fs root_dir rest
                (foldl (\<lambda>(fa, la) f. (fa @ [os_path_join command_dir f], la @ [idx]))
                   (files_acc, labels_acc) files)))
      else First_scan_commands fs root_dir rest (files_acc, labels_acc))"

record First_dataset =
  first_root_dir :: string
  first_commands :: "string list"
  first_all_files :: "string list"
  first_labels :: "nat list"

definition First_init ::
  "filesystem \<Rightarrow> string \<Rightarrow> string list \<Rightarrow> error + (First_dataset \<times> string list)" where
  "First_init fs root_dir out =
     (case os_listdir fs root_dir of
        Inl e \<Rightarrow> Inl e
      | Inr names \<Rightarrow>
          (let cmds = sort names in
           case First_scan_commands fs root_dir (enumerate 0 cmds) ([], []) of
             Inl e \<Rightarrow> Inl e
           | Inr (fa, la) \<Rightarrow>
               Inr (\<lparr>first_root_dir = root_dir, first_commands = cmds,
                     first_all_files = fa, first_labels = la\<rparr>, out)))"

text \<open>
  The files one vocabulary entry contributes, written without the loop (none when the
  entry is no directory). Used in statements about the loop only.
\<close>

definition First_command_files :: "filesystem \<Rightarrow> string \<Rightarrow> string \<Rightarrow> string list" where
  "First_command_files fs root_dir command =
     (case fs (os_path_join root_dir command) of
        Some names \<Rightarrow>
          map (os_path_join (os_path_join root_dir command)) (filter (\<lambda>f. endswith f ''.wav'') names)
      | None \<Rightarrow> [])"

section \<open>Evaluation (binary\_KWS.py, lines 210 to 224)\<close>

text \<open>
  \<^verbatim>\<open>torch.max(outputs.data, 1)\<close> on the 2-D tensor of class scores the network returns:
  for every row the maximum and the index of its first occurrence. Reducing a dimension
  of size zero raises. \<open>first_max\<close> scans one non-empty row.
\<close>

fun first_max :: "real list \<Rightarrow> nat \<times> real" where
  "first_max [] = (0, 0)"
| "first_max [x] = (0, x)"
| "first_max (x # xs) = (let (i, v) = first_max xs in if v \<le> x then (0, x) else (Suc i, v))"

definition torch_max_dim1 :: "real tensor \<Rightarrow> error + (real list \<times> nat list)" where
  "torch_max_dim1 t =
     (case shape t of
        [n, k] \<Rightarrow>
          if k = 0 then Inl IndexError
          else Inr (map (\<lambda>r. snd (first_max r)) (rows t), map (\<lambda>r. fst (first_max r)) (rows t))
      | _ \<Rightarrow> Inl IndexError)"

text \<open>
  \<^verbatim>\<open>(predicted == labels).sum().item()\<close> on two 1-D integer tensors: element-wise on equal
  sizes, a tensor of one element is compared with every element of the other, and any
  other pair of sizes raises.
\<close>

definition eq_count :: "nat list \<Rightarrow> nat list \<Rightarrow> error + nat" where
  "eq_count predicted labels =
     (if length predicted = length labels
        then Inr (length (filter (\<lambda>(p, l). p = l) (zip predicted labels)))
      else if length predicted = 1
        then Inr (length (filter (\<lambda>l. hd predicted = l) labels))
      else if length labels = 1
        then Inr (length (filter (\<lambda>p. p = hd labels) predicted))
      else Inl RuntimeError)"

text \<open>
  The loop over the batches of the test loader. A batch is the pair of its features and
  its labels; the trained network in evaluation mode is the parameter \<open>model\<close>. The
  state is the pair of \<^verbatim>\<open>correct\<close> and \<^verbatim>\<open>total\<close> (here \<open>total_n\<close>).
\<close>

fun evaluation_loop ::
  "('f \<Rightarrow> error + real tensor) \<Rightarrow> ('f \<times> nat list) list \<Rightarrow> nat \<times> nat \<Rightarrow> error + (nat \<times> nat)" where
  "evaluation_loop model [] (correct, total_n) = Inr (correct, total_n)"
| "evaluation_loop model ((features, labels) # rest) (correct, total_n) =
     (case model features of
        Inl e \<Rightarrow> Inl e
      | Inr outputs \<Rightarrow>
          (case torch_max_dim1 outputs of
             Inl e \<Rightarrow> Inl e
           | Inr (values, predicted) \<Rightarrow>
               (case eq_count predicted labels of
                  Inl e \<Rightarrow> Inl e
                | Inr hits \<Rightarrow>
                    evaluation_loop model rest (correct + hits, total_n + length labels))))"

text \<open>
  \<^verbatim>\<open>100 * correct / total\<close> on Python integers: true division, which raises on a zero
  divisor.
\<close>

definition accuracy :: "nat \<Rightarrow> nat \<Rightarrow> error + real" where
  "accuracy correct total_n =
     (if total_n = 0 then Inl ZeroDivisionError else Inr (100 * real correct / real total_n))"

text \<open>
  The whole block. The digits that \<^verbatim>\<open>'{:.2f}'.format\<close> produces for a floating-point
  number are the parameter \<open>format_2f\<close>. The result is the value that is formatted and
  what has been printed.
\<close>

definition evaluation ::
  "(real \<Rightarrow> string) \<Rightarrow> ('f \<Rightarrow> error + real tensor) \<Rightarrow> ('f \<times> nat list) list \<Rightarrow> string list
     \<Rightarrow> error + (real \<times> string list)" where
  "evaluation format_2f model batches out =
     (case evaluation_loop model batches (0, 0) of
        Inl e \<Rightarrow> Inl e
      | Inr (correct, total_n) \<Rightarrow>
          (case accuracy correct total_n of
             Inl e \<Rightarrow> Inl e
           | Inr a \<Rightarrow>
               Inr (a, out @ [''Accuratezza del modello sul test set: '' @ format_2f a @ ''%''])))"

text \<open>
  The number of examples of a batch whose label is the index \<open>first_max\<close> finds in the
  example's row of scores. Used in statements only.
\<close>

definition batch_hits :: "real tensor \<Rightarrow> nat list \<Rightarrow> nat" where
  "batch_hits outputs labels =
     length (filter (\<lambda>(p, l). p = l) (zip (map (\<lambda>r. fst (first_max r)) (rows outputs)) labels))"

section \<open>Weight export (first.py, lines 135 to 143)\<close>

text \<open>
  \<^verbatim>\<open>name.replace('.', '_')\<close> for single characters, and \<^verbatim>\<open>weight.flatten()\<close>: the elements in
  row-major order as a 1-D tensor.
\<close>

definition str_replace :: "char \<Rightarrow> char \<Rightarrow> string \<Rightarrow> string" where
  "str_replace old new s = map (\<lambda>c. if c = old then new else c) s"

definition flatten :: "'a tensor \<Rightarrow> 'a tensor" where
  "flatten t = \<lparr>shape = [numel t], data = data t\<rparr>"

text \<open>
  \<^verbatim>\<open>np.savetxt(fname, X, delimiter=d)\<close> with the default format and line end, as numpy
  implements it: \<open>X\<close> must have one or two dimensions (\<^verbatim>\<open>ValueError\<close> otherwise); a 1-D
  array is turned into a single column (\<^verbatim>\<open>X = np.atleast_2d(X).T\<close>, \<^verbatim>\<open>ncol = 1\<close>); every row
  is written as its formatted values joined by the delimiter, followed by a line feed.
  The result is the text written to the file. The rendering of one number by the
  format \<^verbatim>\<open>%.18e\<close> is the parameter \<open>fmt\<close>.
\<close>

fun str_join :: "string \<Rightarrow> string list \<Rightarrow> string" where
  "str_join d [] = []"
| "str_join d [x] = x"
| "str_join d (x # y # ys) = x @ d @ str_join d (y # ys)"

definition newline :: string where
  "newline = [CHR 0x0A]"

definition np_savetxt :: "(real \<Rightarrow> string) \<Rightarrow> string \<Rightarrow> real tensor \<Rightarrow> error + string" where
  "np_savetxt fmt delimiter X =
     (case shape X of
        [n] \<Rightarrow> Inr (concat (map (\<lambda>r. str_join delimiter (map fmt r) @ newline)
                              (map (\<lambda>v. [v]) (data X))))
      | [n, m] \<Rightarrow> Inr (concat (map (\<lambda>r. str_join delimiter (map fmt r) @ newline) (rows X)))
      | _ \<Rightarrow> Inl ValueError)"

text \<open>
  The first loop fills the dictionary \<^verbatim>\<open>weights\<close> from \<^verbatim>\<open>model.named_parameters()\<close>; a key
  that is stored again keeps its place and takes the new value. The second loop writes
  one file per entry of the dictionary and prints a line. The state is the written
  files (name to content; writing a name again replaces the content) and what has been
  printed.
\<close>

definition First_collect_weights :: "(string \<times> real tensor) list \<Rightarrow> (string \<times> real tensor) list" where
  "First_collect_weights named_parameters =
     foldl (\<lambda>weights (name, param). AList.update name param weights) [] named_parameters"

definition First_filename :: "string \<Rightarrow> string" where
  "First_filename name = str_replace (CHR ''.'') (CHR ''_'') name @ ''.txt''"

fun First_save_weights ::
  "(real \<Rightarrow> string) \<Rightarrow> (string \<times> real tensor) list \<Rightarrow> (string \<rightharpoonup> string) \<times> string list
     \<Rightarrow> error + ((string \<rightharpoonup> string) \<times> string list)" where
  "First_save_weights fmt [] st = Inr st"
| "First_save_weights fmt ((name, w) # rest) (files, out) =
     (let filename = First_filename name in
      case np_savetxt fmt '','' (flatten w) of
        Inl e \<Rightarrow> Inl e
      | Inr content \<Rightarrow>
          First_save_weights fmt rest
            (files(filename \<mapsto> content),
             out @ [''Pesi del layer '' @ [CHR 0x27] @ name @ [CHR 0x27] @ '' salvati in ''
                      @ [CHR 0x27] @ filename @ [CHR 0x27]]))"

definition First_export ::
  "(real \<Rightarrow> string) \<Rightarrow> (string \<times> real tensor) list \<Rightarrow> (string \<rightharpoonup> string) \<Rightarrow> string list
     \<Rightarrow> error + ((string \<rightharpoonup> string) \<times> string list)" where
  "First_export fmt named_parameters files out =
     First_save_weights fmt (First_collect_weights named_parameters) (files, out)"

section \<open>Properties of the binarization\<close>

lemma zip3_same_map:
  "map (\<lambda>(c, x, y). h c x y) (zip (map f xs) (zip (map g xs) (map k xs)))
     = map (\<lambda>v. h (f v) (g v) (k v)) xs"
  by (induction xs) simp_all

lemma BinarizeSTE_forward_data:
  "data (BinarizeSTE_forward ctx input) = map (\<lambda>v. if 0 \<le> v then 1 else - 1) (data input)"
  unfolding BinarizeSTE_forward_def torch_where_def ge_scalar_def ones_like_def neg_def
  by (simp add: zip3_same_map [where f = "\<lambda>v. 0 \<le> v" and g = "\<lambda>_. 1" and k = "\<lambda>_. - 1"
        and h = "\<lambda>c x y. if c then x else y"] comp_def)

lemma BinarizeSTE_forward_shape:
  "shape (BinarizeSTE_forward ctx input) = shape input"
  by (simp add: BinarizeSTE_forward_def torch_where_def ge_scalar_def)

lemma length_concat_uniform:
  "(\<And>xs. xs \<in> set xss \<Longrightarrow> length xs = m) \<Longrightarrow> length (concat xss) = length xss * m"
  by (induction xss) simp_all

lemma nth_concat_uniform:
  "(\<And>xs. xs \<in> set xss \<Longrightarrow> length xs = m) \<Longrightarrow> i < length xss \<Longrightarrow> j < m
     \<Longrightarrow> concat xss ! (i * m + j) = xss ! i ! j"
proof (induction xss arbitrary: i)
  case Nil
  then show ?case by simp
next
  case (Cons xs xss)
  show ?case
  proof (cases i)
    case 0
    with Cons.prems show ?thesis by (simp add: nth_append)
  next
    case (Suc i')
    have "concat xss ! (i' * m + j) = xss ! i' ! j"
      using Cons.IH [of i'] Cons.prems Suc by simp
    moreover have "length xs = m" using Cons.prems(1) by simp
    ultimately show ?thesis using Suc by (simp add: nth_append add.assoc)
  qed
qed

lemma binarize_ste_data: "data (binarize_ste t) = map sign_pm (data t)"
  by (simp add: binarize_ste_def BinarizeSTE_forward_data sign_pm_def [abs_def])

lemma binarize_ste_shape: "shape (binarize_ste t) = shape t"
  by (simp add: binarize_ste_def BinarizeSTE_forward_shape)

lemma row_binarize_ste: "row (binarize_ste t) i = map sign_pm (row t i)"
  by (simp add: row_def binarize_ste_data binarize_ste_shape take_map drop_map)

lemma rows_binarize_ste: "rows (binarize_ste t) = map (map sign_pm) (rows t)"
  by (simp add: rows_def row_binarize_ste binarize_ste_shape)

lemma length_row:
  "length (data t) = n * d \<Longrightarrow> shape t = [n, d] \<Longrightarrow> i < n \<Longrightarrow> length (row t i) = d"
proof -
  assume a: "length (data t) = n * d" "shape t = [n, d]" "i < n"
  have "Suc i * d \<le> n * d" using a(3) by (intro mult_le_mono1) simp
  then have "i * d + d \<le> n * d" by simp
  then show ?thesis using a by (simp add: row_def)
qed

lemma nth_row:
  "length (data t) = n * d \<Longrightarrow> shape t = [n, d] \<Longrightarrow> i < n \<Longrightarrow> k < d
     \<Longrightarrow> row t i ! k = data t ! (i * d + k)"
proof -
  assume a: "length (data t) = n * d" "shape t = [n, d]" "i < n" "k < d"
  have "Suc i * d \<le> n * d" using a(3) by (intro mult_le_mono1) simp
  then have "i * d + d \<le> n * d" by simp
  then show ?thesis using a by (simp add: row_def)
qed

lemma dot_sum:
  "length xs = d \<Longrightarrow> length ys = d \<Longrightarrow> dot xs ys = (\<Sum>k<d. xs ! k * ys ! k)"
  by (simp add: dot_def sum_list_sum_nth atLeast0LessThan)


lemma F_linear_bias_elem:
  assumes sx: "shape x = [n, d]" and sw: "shape w = [h, d]" and sb: "shape b = [h]"
    and lx: "length (data x) = n * d" and lw: "length (data w) = h * d"
    and lb: "length (data b) = h"
  shows "\<exists>out. F_linear x w (Some b) = Inr out \<and> shape out = [n, h]
           \<and> length (data out) = n * h
           \<and> (\<forall>i<n. \<forall>j<h. data out ! (i * h + j)
                  = (\<Sum>k<d. data x ! (i * d + k) * data w ! (j * d + k)) + data b ! j)"
proof -
  let ?inner = "\<lambda>xr. map2 (\<lambda>wj bj. dot xr wj + bj) (rows w) (data b)"
  let ?out = "\<lparr>shape = [n, h], data = concat (map ?inner (rows x))\<rparr>"
  have F: "F_linear x w (Some b) = Inr ?out"
    using sx sw sb by (simp add: F_linear_def)
  have rx: "rows x = map (row x) [0..<n]" using sx by (simp add: rows_def)
  have rw: "rows w = map (row w) [0..<h]" using sw by (simp add: rows_def)
  have len_inner: "\<And>ys. ys \<in> set (map ?inner (rows x)) \<Longrightarrow> length ys = h"
    using lb rw by auto
  have "length (concat (map ?inner (rows x))) = length (map ?inner (rows x)) * h"
    by (rule length_concat_uniform) (rule len_inner)
  then have len: "length (data ?out) = n * h"
    using rx by simp
  have elem: "data ?out ! (i * h + j)
      = (\<Sum>k<d. data x ! (i * d + k) * data w ! (j * d + k)) + data b ! j"
    if "i < n" "j < h" for i j
  proof -
    have "concat (map ?inner (rows x)) ! (i * h + j) = map ?inner (rows x) ! i ! j"
      using that rx by (intro nth_concat_uniform len_inner) simp_all
    then have "data ?out ! (i * h + j) = map ?inner (rows x) ! i ! j"
      by simp
    also have "\<dots> = dot (row x i) (row w j) + data b ! j"
      using that rx rw lb by simp
    also have "dot (row x i) (row w j) = (\<Sum>k<d. row x i ! k * row w j ! k)"
      using dot_sum [of "row x i" d "row w j"] length_row [OF lx sx that(1)]
        length_row [OF lw sw that(2)] by simp
    also have "\<dots> = (\<Sum>k<d. data x ! (i * d + k) * data w ! (j * d + k))"
      using nth_row [OF lx sx that(1)] nth_row [OF lw sw that(2)] by simp
    finally show ?thesis .
  qed
  show ?thesis using F len elem by (intro exI [of _ ?out]) simp
qed

section \<open>Properties of padding and slicing\<close>

lemma take_drop_concat_uniform:
  "(\<And>xs. xs \<in> set xss \<Longrightarrow> length xs = m) \<Longrightarrow> i < length xss
     \<Longrightarrow> take m (drop (i * m) (concat xss)) = xss ! i"
proof (induction xss arbitrary: i)
  case Nil
  then show ?case by simp
next
  case (Cons xs xss)
  have l: "length xs = m" using Cons.prems(1) by simp
  show ?case
  proof (cases i)
    case 0
    with l show ?thesis by simp
  next
    case (Suc i')
    have "take m (drop (i' * m) (concat xss)) = xss ! i'"
      using Cons.IH [of i'] Cons.prems Suc by simp
    then show ?thesis using Suc l by simp
  qed
qed

lemma rows_concat:
  assumes "\<And>xs. xs \<in> set xss \<Longrightarrow> length xs = m"
  shows "rows \<lparr>shape = [length xss, m], data = concat xss\<rparr> = xss"
proof (rule nth_equalityI)
  show "length (rows \<lparr>shape = [length xss, m], data = concat xss\<rparr>) = length xss"
    by (simp add: rows_def)
  fix i assume "i < length (rows \<lparr>shape = [length xss, m], data = concat xss\<rparr>)"
  then have i: "i < length xss" by (simp add: rows_def)
  then show "rows \<lparr>shape = [length xss, m], data = concat xss\<rparr> ! i = xss ! i"
    using take_drop_concat_uniform [of xss m i] assms by (simp add: rows_def row_def)
qed

lemma waveform_cases:
  assumes "is_waveform t"
  obtains c l where "shape t = [c, l]" "length (data t) = c * l" "size1 t = l"
proof -
  from assms have "length (shape t) = 2" by (simp add: is_waveform_def)
  then obtain c l where s: "shape t = [c, l]"
    by (cases "shape t"; cases "tl (shape t)") auto
  moreover have "length (data t) = c * l"
    using assms s by (simp add: is_waveform_def wf_tensor_def numel_def)
  moreover have "size1 t = l" using s by (simp add: size1_def)
  ultimately show ?thesis using that by blast
qed

lemma rows_2d: "shape t = [c, l] \<Longrightarrow> rows t = map (row t) [0..<c]"
  by (simp add: rows_def)

lemma waveform_rows_length:
  assumes "is_waveform t" "r \<in> set (rows t)"
  shows "length r = size1 t"
proof -
  from assms(1) obtain c l where s: "shape t = [c, l]" "length (data t) = c * l" "size1 t = l"
    by (rule waveform_cases)
  from assms(2) obtain i where "i < c" "r = row t i"
    using rows_2d [OF s(1)] by auto
  then show ?thesis using length_row [OF s(2) s(1)] s(3) by simp
qed

lemma is_waveform_concat:
  assumes "\<And>xs. xs \<in> set xss \<Longrightarrow> length xs = m"
  shows "is_waveform \<lparr>shape = [length xss, m], data = concat xss\<rparr>"
  using length_concat_uniform [of xss m] assms
  by (simp add: is_waveform_def wf_tensor_def numel_def)

lemma pad_last_waveform:
  assumes "is_waveform t"
  shows "pad_last t p = \<lparr>shape = [length (rows t), size1 t + p],
                          data = concat (map (\<lambda>r. r @ replicate p 0) (rows t))\<rparr>"
proof -
  from assms obtain c l where s: "shape t = [c, l]" "length (data t) = c * l" "size1 t = l"
    by (rule waveform_cases)
  show ?thesis using s by (simp add: pad_last_def rows_2d [OF s(1)])
qed

lemma slice_cols_waveform:
  assumes "is_waveform t"
  shows "slice_cols t n = \<lparr>shape = [length (rows t), min n (size1 t)],
                            data = concat (map (take n) (rows t))\<rparr>"
proof -
  from assms obtain c l where s: "shape t = [c, l]" "length (data t) = c * l" "size1 t = l"
    by (rule waveform_cases)
  show ?thesis using s by (simp add: slice_cols_def rows_2d [OF s(1)])
qed

lemma pad_last_fit:
  assumes w: "is_waveform t" and le: "size1 t \<le> n"
  shows "is_waveform (pad_last t (n - size1 t))"
    and "shape (pad_last t (n - size1 t)) = [length (rows t), n]"
    and "rows (pad_last t (n - size1 t)) = map (fit_to n) (rows t)"
proof -
  let ?p = "n - size1 t"
  let ?rs = "map (\<lambda>r. r @ replicate ?p 0) (rows t)"
  have len: "\<And>xs. xs \<in> set ?rs \<Longrightarrow> length xs = n"
    using waveform_rows_length [OF w] le by auto
  have eq: "pad_last t ?p = \<lparr>shape = [length ?rs, n], data = concat ?rs\<rparr>"
    using pad_last_waveform [OF w, of ?p] le by simp
  show "is_waveform (pad_last t ?p)"
    unfolding eq by (rule is_waveform_concat) (rule len)
  show "shape (pad_last t ?p) = [length (rows t), n]"
    unfolding eq by simp
  have "rows (pad_last t ?p) = ?rs"
    unfolding eq by (rule rows_concat) (rule len)
  also have "?rs = map (fit_to n) (rows t)"
    using waveform_rows_length [OF w] le by (simp add: fit_to_def)
  finally show "rows (pad_last t ?p) = map (fit_to n) (rows t)" .
qed

lemma slice_cols_fit:
  assumes w: "is_waveform t" and le: "n \<le> size1 t"
  shows "is_waveform (slice_cols t n)"
    and "shape (slice_cols t n) = [length (rows t), n]"
    and "rows (slice_cols t n) = map (fit_to n) (rows t)"
proof -
  let ?rs = "map (take n) (rows t)"
  have len: "\<And>xs. xs \<in> set ?rs \<Longrightarrow> length xs = n"
    using waveform_rows_length [OF w] le by auto
  have eq: "slice_cols t n = \<lparr>shape = [length ?rs, n], data = concat ?rs\<rparr>"
    using slice_cols_waveform [OF w, of n] le by (simp add: min_def)
  show "is_waveform (slice_cols t n)"
    unfolding eq by (rule is_waveform_concat) (rule len)
  show "shape (slice_cols t n) = [length (rows t), n]"
    unfolding eq by simp
  have "rows (slice_cols t n) = ?rs"
    unfolding eq by (rule rows_concat) (rule len)
  also have "?rs = map (fit_to n) (rows t)"
    using waveform_rows_length [OF w] le by (simp add: fit_to_def)
  finally show "rows (slice_cols t n) = map (fit_to n) (rows t)" .
qed

section \<open>Properties of the dataset builders\<close>

text \<open>The dictionary comprehension, from any starting dictionary and counter.\<close>

lemma c2i_fold_other:
  "c \<notin> set xs \<Longrightarrow>
     foldl (\<lambda>m (idx, command). m(command \<mapsto> idx)) m (enumerate n xs) c = m c"
  by (induction xs arbitrary: m n) (simp_all del: fun_upd_apply, simp)

lemma c2i_fold_member:
  "c \<in> set xs \<Longrightarrow>
     \<exists>j<length xs. xs ! j = c
        \<and> foldl (\<lambda>m (idx, command). m(command \<mapsto> idx)) m (enumerate n xs) c = Some (n + j)"
proof (induction xs arbitrary: m n)
  case Nil
  then show ?case by simp
next
  case (Cons x xs)
  show ?case
  proof (cases "c \<in> set xs")
    case True
    from Cons.IH [OF True, of "m(x \<mapsto> n)" "Suc n"] obtain j where
      "j < length xs" "xs ! j = c"
      "foldl (\<lambda>m (idx, command). m(command \<mapsto> idx)) (m(x \<mapsto> n)) (enumerate (Suc n) xs) c
         = Some (Suc n + j)"
      by blast
    then show ?thesis by (intro exI [of _ "Suc j"]) (simp del: fun_upd_apply)
  next
    case False
    with Cons.prems have "c = x" by simp
    with False show ?thesis
      by (intro exI [of _ 0]) (simp add: c2i_fold_other del: fun_upd_apply, simp)
  qed
qed

lemma c2i_fold_distinct:
  "distinct xs \<Longrightarrow> j < length xs \<Longrightarrow>
     foldl (\<lambda>m (idx, command). m(command \<mapsto> idx)) m (enumerate n xs) (xs ! j) = Some (n + j)"
proof (induction xs arbitrary: m n j)
  case Nil
  then show ?case by simp
next
  case (Cons x xs)
  show ?case
  proof (cases j)
    case 0
    with Cons.prems show ?thesis by (simp add: c2i_fold_other del: fun_upd_apply, simp)
  next
    case (Suc j')
    with Cons.prems Cons.IH [of j' "m(x \<mapsto> n)" "Suc n"] show ?thesis
      by (simp del: fun_upd_apply)
  qed
qed

lemma command_to_index_None: "c \<notin> set cmds \<Longrightarrow> command_to_index cmds c = None"
  by (simp add: command_to_index_def c2i_fold_other)

lemma command_to_index_member:
  "c \<in> set cmds \<Longrightarrow> \<exists>j<length cmds. cmds ! j = c \<and> command_to_index cmds c = Some j"
  using c2i_fold_member [of c cmds Map.empty 0] by (simp add: command_to_index_def)

lemma command_to_index_Some:
  assumes "command_to_index cmds c = Some i"
  shows "i < length cmds \<and> cmds ! i = c"
proof -
  have "c \<in> set cmds" using assms command_to_index_None [of c cmds] by (cases "c \<in> set cmds") auto
  then show ?thesis using command_to_index_member [of c cmds] assms by auto
qed

lemma command_to_index_dom: "dom (command_to_index cmds) = set cmds"
proof (rule set_eqI)
  fix c
  show "c \<in> dom (command_to_index cmds) \<longleftrightarrow> c \<in> set cmds"
    using command_to_index_None [of c cmds] command_to_index_member [of c cmds] by (cases "c \<in> set cmds") auto
qed

lemma command_to_index_distinct:
  "distinct cmds \<Longrightarrow> j < length cmds \<Longrightarrow> command_to_index cmds (cmds ! j) = Some j"
  using c2i_fold_distinct [of cmds j Map.empty 0] by (simp add: command_to_index_def)

lemma command_to_index_bij:
  assumes "distinct cmds"
  shows "bij_betw (\<lambda>c. the (command_to_index cmds c)) (set cmds) {0..<num_classes cmds}"
proof (rule bij_betw_byWitness [where f' = "\<lambda>i. cmds ! i"])
  show "\<forall>c\<in>set cmds. cmds ! the (command_to_index cmds c) = c"
    using command_to_index_member by fastforce
  show "\<forall>i\<in>{0..<num_classes cmds}. the (command_to_index cmds (cmds ! i)) = i"
    using command_to_index_distinct [OF assms] by (simp add: num_classes_def)
  show "(\<lambda>c. the (command_to_index cmds c)) ` set cmds \<subseteq> {0..<num_classes cmds}"
    using command_to_index_member by (fastforce simp: num_classes_def)
  show "(\<lambda>i. cmds ! i) ` {0..<num_classes cmds} \<subseteq> set cmds"
    by (auto simp: num_classes_def)
qed

lemma KWS_scan_files_total:
  "c2i command = Some label \<Longrightarrow>
     KWS_scan_files c2i command command_dir names smpls
       = Inr (smpls @ map (\<lambda>f. (os_path_join command_dir f, label))
                        (filter (\<lambda>f. endswith f ''.wav'') names))"
  by (induction names arbitrary: smpls) simp_all

lemma KWS_scan_commands_char:
  "(\<And>c. c \<in> set cs \<Longrightarrow> c2i c \<noteq> None) \<Longrightarrow>
     KWS_scan_commands fs c2i ddir cs (smpls, out)
       = Inr (smpls @ concat (map (KWS_command_samples fs c2i ddir) cs),
              out @ concat (map (KWS_command_warnings fs ddir) cs))"
proof (induction cs arbitrary: smpls out)
  case Nil
  then show ?case by simp
next
  case (Cons c cs)
  from Cons.prems obtain label where l: "c2i c = Some label" by auto
  have rest: "\<And>s out. KWS_scan_commands fs c2i ddir cs (s, out)
       = Inr (s @ concat (map (KWS_command_samples fs c2i ddir) cs),
              out @ concat (map (KWS_command_warnings fs ddir) cs))"
    using Cons.IH Cons.prems by simp
  show ?case
  proof (cases "fs (os_path_join ddir c)")
    case None
    then have "KWS_command_samples fs c2i ddir c = []"
      "KWS_command_warnings fs ddir c = [KWS_warning (os_path_join ddir c)]"
      "\<not> os_path_isdir fs (os_path_join ddir c)"
      by (simp_all add: os_path_isdir_def KWS_command_samples_def KWS_command_warnings_def)
    then show ?thesis
      using rest by simp
  next
    case (Some names)
    then have "KWS_command_samples fs c2i ddir c
        = map (\<lambda>f. (os_path_join (os_path_join ddir c) f, label))
            (filter (\<lambda>f. endswith f ''.wav'') names)"
      "KWS_command_warnings fs ddir c = []"
      "os_path_isdir fs (os_path_join ddir c)"
      "os_listdir fs (os_path_join ddir c) = Inr names"
      using l by (simp_all add: os_path_isdir_def os_listdir_def KWS_command_samples_def
          KWS_command_warnings_def)
    then show ?thesis
      using rest l by (simp add: KWS_scan_files_total)
  qed
qed

lemma KWS_full_dataset_char:
  "KWS_full_dataset fs ddir cmds out
     = Inr (\<lparr>kws_dataset_dir = ddir, kws_commands = cmds,
             kws_samples = concat (map (KWS_command_samples fs (command_to_index cmds) ddir) cmds)\<rparr>,
            out @ concat (map (KWS_command_warnings fs ddir) cmds))"
proof -
  have "\<And>c. c \<in> set cmds \<Longrightarrow> command_to_index cmds c \<noteq> None"
    using command_to_index_member by fastforce
  then show ?thesis
    by (simp add: KWS_full_dataset_def KWS_init_def KWS_scan_commands_char)
qed

lemma KWS_command_samples_label:
  assumes "s \<in> set (KWS_command_samples fs c2i ddir c)"
  shows "c2i c = Some (snd s) \<and> os_path_isdir fs (os_path_join ddir c)"
  using assms
  by (cases "fs (os_path_join ddir c)"; cases "c2i c")
     (auto simp: KWS_command_samples_def os_path_isdir_def)

lemma concat_map_filter_empty:
  "f x = [] \<Longrightarrow> concat (map f (filter (\<lambda>c. c \<noteq> x) cs)) = concat (map f cs)"
  by (induction cs) auto

lemma First_append_loop:
  "foldl (\<lambda>(fa, la) f. (fa @ [g f], la @ [idx])) (fa, la) files
     = (fa @ map g files, la @ replicate (length files) (idx :: nat))"
  by (induction files arbitrary: fa la) (simp_all add: replicate_app_Cons_same)

lemma First_scan_commands_char:
  "First_scan_commands fs root_dir ics (fa, la)
     = Inr (fa @ concat (map (\<lambda>(i, c). First_command_files fs root_dir c) ics),
            la @ concat (map (\<lambda>(i, c). replicate (length (First_command_files fs root_dir c)) i) ics))"
proof (induction ics arbitrary: fa la)
  case Nil
  then show ?case by simp
next
  case (Cons ic ics)
  obtain i c where ic: "ic = (i, c)" by (cases ic)
  show ?case
  proof (cases "fs (os_path_join root_dir c)")
    case None
    then have "First_command_files fs root_dir c = []"
      "\<not> os_path_isdir fs (os_path_join root_dir c)"
      by (simp_all add: First_command_files_def os_path_isdir_def)
    then show ?thesis using Cons.IH ic by simp
  next
    case (Some names)
    then have "First_command_files fs root_dir c
        = map (os_path_join (os_path_join root_dir c)) (filter (\<lambda>f. endswith f ''.wav'') names)"
      "os_path_isdir fs (os_path_join root_dir c)"
      "os_listdir fs (os_path_join root_dir c) = Inr names"
      by (simp_all add: First_command_files_def os_path_isdir_def os_listdir_def)
    then show ?thesis using Cons.IH ic by (simp add: First_append_loop Let_def)
  qed
qed

lemma First_init_char:
  assumes "fs root_dir = Some names"
  shows "First_init fs root_dir out
     = Inr (\<lparr>first_root_dir = root_dir, first_commands = sort names,
             first_all_files = concat (map (\<lambda>(i, c). First_command_files fs root_dir c)
                                        (enumerate 0 (sort names))),
             first_labels = concat (map (\<lambda>(i, c). replicate (length (First_command_files fs root_dir c)) i)
                                     (enumerate 0 (sort names)))\<rparr>, out)"
  using assms by (simp add: First_init_def os_listdir_def First_scan_commands_char Let_def)

lemma First_init_error:
  "fs root_dir = None \<Longrightarrow> First_init fs root_dir out = Inl OSError"
  by (simp add: First_init_def os_listdir_def)

lemma enumerate_labels_member:
  assumes "l \<in> set (concat (map (\<lambda>(i, c). replicate (length (f c)) i) (enumerate 0 cs)))"
  shows "l < length cs \<and> f (cs ! l) \<noteq> []"
proof -
  from assms obtain i c where ic: "(i, c) \<in> set (enumerate 0 cs)" "l \<in> set (replicate (length (f c)) i)"
    by auto
  then have "l = i" "f c \<noteq> []" by auto
  moreover from ic(1) have "i < length cs" "c = cs ! i"
    by (auto simp: in_set_enumerate_eq)
  ultimately show ?thesis by simp
qed

lemma length_concat_labels:
  "length (concat (map (\<lambda>(i, c). replicate (length (f c)) (i :: nat)) ics))
     = length (concat (map (\<lambda>(i, c). f c) ics))"
  by (induction ics) auto

section \<open>Properties of the evaluation loop\<close>

lemma first_max_props:
  "xs \<noteq> [] \<Longrightarrow>
     fst (first_max xs) < length xs
     \<and> xs ! fst (first_max xs) = snd (first_max xs)
     \<and> (\<forall>v \<in> set xs. v \<le> snd (first_max xs))
     \<and> (\<forall>j < fst (first_max xs). xs ! j < snd (first_max xs))"
proof (induction xs rule: first_max.induct)
  case 1
  then show ?case by simp
next
  case (2 x)
  then show ?case by simp
next
  case (3 x y ys)
  obtain i v where iv: "first_max (y # ys) = (i, v)" by (cases "first_max (y # ys)")
  with 3 have ih: "i < length (y # ys)" "(y # ys) ! i = v" "\<forall>w \<in> set (y # ys). w \<le> v"
      "\<forall>j < i. (y # ys) ! j < v"
    by simp_all
  show ?case
  proof (cases "v \<le> x")
    case True
    then have "first_max (x # y # ys) = (0, x)" using iv by simp
    then show ?thesis using ih(3) True by auto
  next
    case False
    then have fm: "first_max (x # y # ys) = (Suc i, v)" using iv by simp
    have "(x # y # ys) ! j < v" if "j < Suc i" for j
      using that ih(4) False by (cases j) auto
    then show ?thesis using fm ih(1,2,3) False by auto
  qed
qed

lemma batch_hits_le: "batch_hits outputs labels \<le> length labels"
proof -
  have "batch_hits outputs labels
      \<le> length (zip (map (\<lambda>r. fst (first_max r)) (rows outputs)) labels)"
    unfolding batch_hits_def by (rule length_filter_le)
  then show ?thesis by simp
qed

lemma evaluation_step:
  assumes "model f = Inr outputs" "shape outputs = [length l, k]" "0 < k"
  shows "evaluation_loop model ((f, l) # rest) (c, t)
       = evaluation_loop model rest (c + batch_hits outputs l, t + length l)"
proof -
  have r: "length (rows outputs) = length l" using assms(2) by (simp add: rows_def)
  have m: "torch_max_dim1 outputs
      = Inr (map (\<lambda>r. snd (first_max r)) (rows outputs), map (\<lambda>r. fst (first_max r)) (rows outputs))"
    using assms(2,3) by (simp add: torch_max_dim1_def)
  have e: "eq_count (map (\<lambda>r. fst (first_max r)) (rows outputs)) l = Inr (batch_hits outputs l)"
    using r by (simp add: eq_count_def batch_hits_def)
  show ?thesis using assms(1) m e by simp
qed

lemma evaluation_loop_char:
  assumes "\<And>f l. (f, l) \<in> set batches \<Longrightarrow>
      \<exists>outputs k. model f = Inr outputs \<and> shape outputs = [length l, k] \<and> 0 < k"
  shows "evaluation_loop model batches (c, t)
     = Inr (c + sum_list (map (\<lambda>(f, l). batch_hits (projr (model f)) l) batches),
            t + sum_list (map (\<lambda>(f, l). length l) batches))"
  using assms
proof (induction batches arbitrary: c t)
  case Nil
  then show ?case by simp
next
  case (Cons b batches)
  obtain f l where b: "b = (f, l)" by (cases b)
  from Cons.prems [of f l] b obtain outputs k where
    o: "model f = Inr outputs" "shape outputs = [length l, k]" "0 < k"
    by auto
  have "evaluation_loop model batches (c + batch_hits outputs l, t + length l)
     = Inr (c + batch_hits outputs l + sum_list (map (\<lambda>(f, l). batch_hits (projr (model f)) l) batches),
            t + length l + sum_list (map (\<lambda>(f, l). length l) batches))"
    using Cons.prems by (intro Cons.IH) simp
  then show ?case
    using evaluation_step [of model f outputs l k batches c t] o b by (simp add: add.assoc)
qed

lemma hits_le_total:
  "sum_list (map (\<lambda>(f, l). batch_hits (g f) l) batches) \<le> sum_list (map (\<lambda>(f, l). length l) batches)"
  by (induction batches) (auto intro: add_mono batch_hits_le)

lemma accuracy_bounds:
  assumes "c \<le> t" "0 < t"
  shows "accuracy c t = Inr (100 * real c / real t)"
    and "0 \<le> 100 * real c / real t" and "100 * real c / real t \<le> 100"
  using assms by (simp_all add: accuracy_def field_simps)

lemma evaluation_empty: "evaluation format_2f model [] out = Inl ZeroDivisionError"
  by (simp add: evaluation_def accuracy_def)

section \<open>Properties of the weight export\<close>

lemma np_savetxt_flatten:
  "np_savetxt fmt delimiter (flatten w) = Inr (concat (map (\<lambda>v. fmt v @ newline) (data w)))"
  by (simp add: np_savetxt_def flatten_def comp_def)

lemma np_savetxt_flatten_delimiter:
  "np_savetxt fmt delimiter (flatten w) = np_savetxt fmt delimiter' (flatten w)"
  by (simp add: np_savetxt_flatten)

lemma flatten_row_major:
  assumes "\<And>r. r \<in> set rs \<Longrightarrow> length r = m"
  shows "data (flatten \<lparr>shape = [length rs, m], data = concat rs\<rparr>) = concat rs"
    and "length (data (flatten \<lparr>shape = [length rs, m], data = concat rs\<rparr>)) = length rs * m"
  using length_concat_uniform [of rs m] assms by (simp_all add: flatten_def)

lemma First_save_weights_step:
  "First_save_weights fmt ((name, w) # rest) (files, out)
     = First_save_weights fmt rest
         (files(First_filename name \<mapsto> concat (map (\<lambda>v. fmt v @ newline) (data w))),
          out @ [''Pesi del layer '' @ [CHR 0x27] @ name @ [CHR 0x27] @ '' salvati in ''
                   @ [CHR 0x27] @ First_filename name @ [CHR 0x27]])"
  by (simp add: np_savetxt_flatten Let_def)

section \<open>The claims about the binarization\<close>

text \<open>
  C1. The forward rule keeps the shape of its input and maps every element to \<open>+1\<close> or
  \<open>-1\<close>: an element \<open>\<ge> 0\<close> (zero included) becomes \<open>+1\<close>, an element \<open>< 0\<close>
  becomes \<open>-1\<close>.
\<close>

theorem BinarizeSTE_forward_values:
  "shape (BinarizeSTE_forward ctx input) = shape input
   \<and> data (BinarizeSTE_forward ctx input) = map (\<lambda>v. if 0 \<le> v then 1 else - 1) (data input)
   \<and> set (data (BinarizeSTE_forward ctx input)) \<subseteq> {1, - 1}"
  by (auto simp: BinarizeSTE_forward_shape BinarizeSTE_forward_data)

text \<open>
  C2. The backward rule returns the upstream gradient unchanged, whatever the context
  holds, hence whatever input the forward rule received.
\<close>

theorem BinarizeSTE_backward_identity:
  "BinarizeSTE_backward ctx grad_output = grad_output"
  by (simp add: BinarizeSTE_backward_def)

text \<open>
  C10. The forward rule is idempotent: applied to its own output it returns that output.
\<close>

theorem BinarizeSTE_forward_idempotent:
  "BinarizeSTE_forward ctx' (BinarizeSTE_forward ctx input) = BinarizeSTE_forward ctx input"
proof (rule tensor.equality)
  show "shape (BinarizeSTE_forward ctx' (BinarizeSTE_forward ctx input))
      = shape (BinarizeSTE_forward ctx input)"
    by (simp add: BinarizeSTE_forward_shape)
  show "data (BinarizeSTE_forward ctx' (BinarizeSTE_forward ctx input))
      = data (BinarizeSTE_forward ctx input)"
    by (simp add: BinarizeSTE_forward_data)
  show "tensor.more (BinarizeSTE_forward ctx' (BinarizeSTE_forward ctx input))
      = tensor.more (BinarizeSTE_forward ctx input)"
    by simp
qed

text \<open>
  C3. The forward pass of a binarized linear layer returns the layer as it received it
  (the stored weight and bias are not written), and its output is the affine map
  \<^verbatim>\<open>F.linear\<close> applied to the binarized input, the binarized weight and the binarized
  bias, each computed from the current stored values by the same forward rule. For a
  batch of \<open>n\<close> rows of \<open>d\<close> features and a layer of \<open>h\<close> outputs the call succeeds, all
  three binarized operands hold only \<open>+1\<close> and \<open>-1\<close>, and output element \<open>(i, j)\<close> is
  \<open>(\<Sum>k<d. sign x[i,k] * sign w[j,k]) + sign b[j]\<close>.
\<close>

theorem BinarizeLinearSTE_forward_binarized:
  "fst (BinarizeLinearSTE_forward self input) = self
   \<and> snd (BinarizeLinearSTE_forward self input)
       = F_linear (binarize_ste input) (binarize_ste (weight self))
           (map_option binarize_ste (bias self))
   \<and> (shape input = [n, d] \<and> length (data input) = n * d
        \<and> shape (weight self) = [h, d] \<and> length (data (weight self)) = h * d
        \<and> bias self = Some b \<and> shape b = [h] \<and> length (data b) = h
      \<longrightarrow> (\<exists>out. snd (BinarizeLinearSTE_forward self input) = Inr out
             \<and> shape out = [n, h] \<and> length (data out) = n * h
             \<and> set (data (binarize_ste input)) \<subseteq> {1, - 1}
             \<and> set (data (binarize_ste (weight self))) \<subseteq> {1, - 1}
             \<and> set (data (binarize_ste b)) \<subseteq> {1, - 1}
             \<and> (\<forall>i<n. \<forall>j<h. data out ! (i * h + j)
                   = (\<Sum>k<d. sign_pm (data input ! (i * d + k))
                              * sign_pm (data (weight self) ! (j * d + k)))
                     + sign_pm (data b ! j))))"
proof (intro conjI impI)
  show "fst (BinarizeLinearSTE_forward self input) = self"
    by (simp add: BinarizeLinearSTE_forward_def Let_def)
  show eq: "snd (BinarizeLinearSTE_forward self input)
       = F_linear (binarize_ste input) (binarize_ste (weight self))
           (map_option binarize_ste (bias self))"
    by (simp add: BinarizeLinearSTE_forward_def Let_def map_option_case)
  assume h: "shape input = [n, d] \<and> length (data input) = n * d
        \<and> shape (weight self) = [h, d] \<and> length (data (weight self)) = h * d
        \<and> bias self = Some b \<and> shape b = [h] \<and> length (data b) = h"
  obtain out where out: "F_linear (binarize_ste input) (binarize_ste (weight self))
        (Some (binarize_ste b)) = Inr out" "shape out = [n, h]" "length (data out) = n * h"
      "\<forall>i<n. \<forall>j<h. data out ! (i * h + j)
          = (\<Sum>k<d. data (binarize_ste input) ! (i * d + k)
                * data (binarize_ste (weight self)) ! (j * d + k))
            + data (binarize_ste b) ! j"
    using F_linear_bias_elem [of "binarize_ste input" n d "binarize_ste (weight self)" h
        "binarize_ste b"] h
    by (auto simp: binarize_ste_shape binarize_ste_data)
  have idx: "i * d + k < n * d" if "i < n" "k < d" for i k n
  proof -
    have "Suc i * d \<le> n * d" using that(1) by (intro mult_le_mono1) simp
    then show ?thesis using that(2) by simp
  qed
  have vals: "data out ! (i * h + j)
      = (\<Sum>k<d. sign_pm (data input ! (i * d + k)) * sign_pm (data (weight self) ! (j * d + k)))
        + sign_pm (data b ! j)" if "i < n" "j < h" for i j
  proof -
    have "data out ! (i * h + j) = (\<Sum>k<d. data (binarize_ste input) ! (i * d + k)
                * data (binarize_ste (weight self)) ! (j * d + k))
            + data (binarize_ste b) ! j"
      using out(4) that by simp
    moreover have "data (binarize_ste input) ! (i * d + k) = sign_pm (data input ! (i * d + k))"
      if "k < d" for k
      using idx [OF \<open>i < n\<close> that] h by (simp add: binarize_ste_data)
    moreover have "data (binarize_ste (weight self)) ! (j * d + k)
        = sign_pm (data (weight self) ! (j * d + k))" if "k < d" for k
      using idx [OF \<open>j < h\<close> that] h by (simp add: binarize_ste_data)
    moreover have "data (binarize_ste b) ! j = sign_pm (data b ! j)"
      using that h by (simp add: binarize_ste_data)
    ultimately show ?thesis by simp
  qed
  have sub: "set (data (binarize_ste t)) \<subseteq> {1, - 1}" for t
    by (auto simp: binarize_ste_data sign_pm_def)
  show "\<exists>out. snd (BinarizeLinearSTE_forward self input) = Inr out
             \<and> shape out = [n, h] \<and> length (data out) = n * h
             \<and> set (data (binarize_ste input)) \<subseteq> {1, - 1}
             \<and> set (data (binarize_ste (weight self))) \<subseteq> {1, - 1}
             \<and> set (data (binarize_ste b)) \<subseteq> {1, - 1}
             \<and> (\<forall>i<n. \<forall>j<h. data out ! (i * h + j)
                   = (\<Sum>k<d. sign_pm (data input ! (i * d + k))
                              * sign_pm (data (weight self) ! (j * d + k)))
                     + sign_pm (data b ! j))"
    using out(1,2,3) vals sub eq h by (intro exI [of _ out]) simp
qed

theorem BinarizeLinearSTE_forward_binarized_witness:
  "fst (BinarizeLinearSTE_forward
          \<lparr>weight = \<lparr>shape = [1, 2], data = [1 / 2, - 2]\<rparr>,
           bias = Some \<lparr>shape = [1], data = [- 3]\<rparr>\<rparr>
          \<lparr>shape = [1, 2], data = [0, - 1]\<rparr>)
     = \<lparr>weight = \<lparr>shape = [1, 2], data = [1 / 2, - 2]\<rparr>,
        bias = Some \<lparr>shape = [1], data = [- 3]\<rparr>\<rparr>
   \<and> (\<exists>out. snd (BinarizeLinearSTE_forward
          \<lparr>weight = \<lparr>shape = [1, 2], data = [1 / 2, - 2]\<rparr>,
           bias = Some \<lparr>shape = [1], data = [- 3]\<rparr>\<rparr>
          \<lparr>shape = [1, 2], data = [0, - 1]\<rparr>) = Inr out
        \<and> shape out = [1, 1] \<and> length (data out) = 1 \<and> data out ! 0 = 1)"
proof -
  let ?L = "\<lparr>weight = \<lparr>shape = [1, 2], data = [1 / 2, - 2]\<rparr>,
           bias = Some \<lparr>shape = [1], data = [- 3]\<rparr>\<rparr>"
  let ?X = "\<lparr>shape = [1, 2], data = [0, - 1 :: real]\<rparr>"
  note t = BinarizeLinearSTE_forward_binarized
    [of ?L ?X 1 2 1 "\<lparr>shape = [1], data = [- 3]\<rparr>"]
  have a: "fst (BinarizeLinearSTE_forward ?L ?X) = ?L"
    using t by (rule conjunct1)
  have H: "shape ?X = [1, 2] \<and> length (data ?X) = 1 * 2
        \<and> shape (weight ?L) = [1, 2] \<and> length (data (weight ?L)) = 1 * 2
        \<and> bias ?L = Some \<lparr>shape = [1], data = [- 3]\<rparr>
        \<and> shape \<lparr>shape = [1], data = [- 3 :: real]\<rparr> = [1]
        \<and> length (data \<lparr>shape = [1], data = [- 3 :: real]\<rparr>) = 1"
    by simp
  from t [THEN conjunct2, THEN conjunct2, THEN mp, OF H]
  obtain out where o: "snd (BinarizeLinearSTE_forward ?L ?X) = Inr out"
      "shape out = [1, 1]" "length (data out) = 1 * 1"
      "\<forall>i<1. \<forall>j<1. data out ! (i * 1 + j)
          = (\<Sum>k<2. sign_pm (data ?X ! (i * 2 + k)) * sign_pm (data (weight ?L) ! (j * 2 + k)))
            + sign_pm (data \<lparr>shape = [1], data = [- 3 :: real]\<rparr> ! j)"
    by blast
  from o(4) have "data out ! 0 = 1"
    by (simp add: sign_pm_def lessThan_Suc numeral_2_eq_2)
  with a o(1,2,3) show ?thesis by simp
qed

section \<open>The claim about fixed-length waveforms\<close>

text \<open>
  C4, as amended. In the binarized pipeline a waveform whose native rate is not 16 kHz is
  replaced by what the library resampler makes of it for the target rate 16 kHz, and a
  waveform at 16 kHz is left alone; the result then comes out with exactly 16000 samples
  in every channel: the first 16000 samples are kept, a shorter channel is padded with
  zeros on the right. The reference pipeline does
  not resample and its target is one second at the native rate: its output has exactly
  as many samples per channel as the native rate says, formed the same way, which is
  16000 only for a file recorded at 16 kHz.
\<close>

theorem fixed_length_sample_count:
  assumes "is_waveform waveform" and "is_waveform (KWS_resample Resample waveform sr)"
  shows "KWS_resample Resample waveform 16000 = waveform
    \<and> (sr \<noteq> 16000 \<longrightarrow> KWS_resample Resample waveform sr = Resample sr 16000 waveform)
    \<and> (sr \<noteq> 16000 \<longrightarrow>
          rows (KWS_fixed_length Resample waveform sr)
            = map (fit_to 16000) (rows (Resample sr 16000 waveform)))
    \<and> (sr = 16000 \<longrightarrow>
          rows (KWS_fixed_length Resample waveform sr) = map (fit_to 16000) (rows waveform))
    \<and> is_waveform (KWS_fixed_length Resample waveform sr)
    \<and> size1 (KWS_fixed_length Resample waveform sr) = 16000
    \<and> rows (KWS_fixed_length Resample waveform sr)
        = map (fit_to 16000) (rows (KWS_resample Resample waveform sr))
    \<and> is_waveform (First_preprocess_audio waveform sr)
    \<and> size1 (First_preprocess_audio waveform sr) = sr
    \<and> rows (First_preprocess_audio waveform sr) = map (fit_to sr) (rows waveform)"
proof -
  let ?w = "KWS_resample Resample waveform sr"
  have r: "KWS_resample Resample waveform 16000 = waveform"
    by (simp add: KWS_resample_def sample_rate_def)
  have r': "sr \<noteq> 16000 \<longrightarrow> KWS_resample Resample waveform sr = Resample sr 16000 waveform"
    by (simp add: KWS_resample_def sample_rate_def)
  have r'': "sr = 16000 \<longrightarrow> KWS_resample Resample waveform sr = waveform"
    by (simp add: KWS_resample_def sample_rate_def)
  have kws: "is_waveform (KWS_uniform_length ?w)
      \<and> shape (KWS_uniform_length ?w) = [length (rows ?w), 16000]
      \<and> rows (KWS_uniform_length ?w) = map (fit_to 16000) (rows ?w)"
  proof (cases "size1 ?w < 16000")
    case True
    then have "KWS_uniform_length ?w = pad_last ?w (16000 - size1 ?w)"
      by (simp add: KWS_uniform_length_def sample_rate_def)
    then show ?thesis
      using pad_last_fit [OF assms(2), of 16000] True by simp
  next
    case False
    then have "KWS_uniform_length ?w = slice_cols ?w 16000"
      by (simp add: KWS_uniform_length_def sample_rate_def)
    then show ?thesis
      using slice_cols_fit [OF assms(2), of 16000] False by simp
  qed
  have first: "is_waveform (First_preprocess_audio waveform sr)
      \<and> shape (First_preprocess_audio waveform sr) = [length (rows waveform), sr]
      \<and> rows (First_preprocess_audio waveform sr) = map (fit_to sr) (rows waveform)"
  proof (cases "size1 waveform > sr")
    case True
    then have "First_preprocess_audio waveform sr = slice_cols waveform sr"
      by (simp add: First_preprocess_audio_def)
    then show ?thesis
      using slice_cols_fit [OF assms(1), of sr] True by simp
  next
    case False
    then have "First_preprocess_audio waveform sr = pad_last waveform (sr - size1 waveform)"
      by (simp add: First_preprocess_audio_def)
    then show ?thesis
      using pad_last_fit [OF assms(1), of sr] False by simp
  qed
  have k1: "sr \<noteq> 16000 \<longrightarrow>
      rows (KWS_fixed_length Resample waveform sr)
        = map (fit_to 16000) (rows (Resample sr 16000 waveform))"
    using kws r' by (auto simp: KWS_fixed_length_def)
  have k2: "sr = 16000 \<longrightarrow>
      rows (KWS_fixed_length Resample waveform sr) = map (fit_to 16000) (rows waveform)"
    using kws r'' by (auto simp: KWS_fixed_length_def)
  have k3: "is_waveform (KWS_fixed_length Resample waveform sr)
      \<and> size1 (KWS_fixed_length Resample waveform sr) = 16000
      \<and> rows (KWS_fixed_length Resample waveform sr)
          = map (fit_to 16000) (rows (KWS_resample Resample waveform sr))"
    using kws by (simp add: KWS_fixed_length_def size1_def)
  have f3: "is_waveform (First_preprocess_audio waveform sr)
      \<and> size1 (First_preprocess_audio waveform sr) = sr
      \<and> rows (First_preprocess_audio waveform sr) = map (fit_to sr) (rows waveform)"
    using first by (simp add: size1_def)
  show ?thesis
    using r r' k1 k2 k3 f3 by blast
qed

theorem fixed_length_sample_count_witness:
  "is_waveform \<lparr>shape = [1, 3], data = [1, 2, 3]\<rparr>
   \<and> is_waveform (KWS_resample (\<lambda>orig new t. \<lparr>shape = [1, 6], data = [1, 1, 2, 2, 3, 3]\<rparr>)
         \<lparr>shape = [1, 3], data = [1, 2, 3]\<rparr> 8000)
   \<and> (8000 :: nat) \<noteq> 16000
   \<and> KWS_resample (\<lambda>orig new t. \<lparr>shape = [1, 6], data = [1, 1, 2, 2, 3, 3]\<rparr>)
         \<lparr>shape = [1, 3], data = [1, 2, 3]\<rparr> 8000
       = \<lparr>shape = [1, 6], data = [1, 1, 2, 2, 3, 3]\<rparr>
   \<and> rows (KWS_fixed_length (\<lambda>orig new t. \<lparr>shape = [1, 6], data = [1, 1, 2, 2, 3, 3]\<rparr>)
         \<lparr>shape = [1, 3], data = [1, 2, 3]\<rparr> 8000)
       = map (fit_to 16000) (rows \<lparr>shape = [1, 6], data = [1, 1, 2, 2, 3, 3]\<rparr>)
   \<and> size1 (KWS_fixed_length (\<lambda>orig new t. \<lparr>shape = [1, 6], data = [1, 1, 2, 2, 3, 3]\<rparr>)
         \<lparr>shape = [1, 3], data = [1, 2, 3]\<rparr> 8000) = 16000
   \<and> size1 (First_preprocess_audio \<lparr>shape = [1, 3], data = [1, 2, 3]\<rparr> 8000) = 8000"
proof -
  let ?R = "\<lambda>(orig :: nat) (new :: nat) (t :: real tensor).
      \<lparr>shape = [1, 6], data = [1, 1, 2, 2, 3, 3 :: real]\<rparr>"
  let ?W = "\<lparr>shape = [1, 3], data = [1, 2, 3 :: real]\<rparr>"
  have a: "is_waveform ?W"
    by (simp add: is_waveform_def wf_tensor_def numel_def)
  have b: "is_waveform (KWS_resample ?R ?W 8000)"
    by (simp add: KWS_resample_def sample_rate_def is_waveform_def wf_tensor_def numel_def)
  have c: "(8000 :: nat) \<noteq> 16000" by simp
  note t = fixed_length_sample_count [OF a b]
  from t c have d: "KWS_resample ?R ?W 8000 = \<lparr>shape = [1, 6], data = [1, 1, 2, 2, 3, 3]\<rparr>"
    by blast
  from t c have e: "rows (KWS_fixed_length ?R ?W 8000)
       = map (fit_to 16000) (rows \<lparr>shape = [1, 6], data = [1, 1, 2, 2, 3, 3]\<rparr>)"
    by blast
  from t have f: "size1 (KWS_fixed_length ?R ?W 8000) = 16000"
    by blast
  from t have g: "size1 (First_preprocess_audio ?W 8000) = 8000"
    by blast
  from a b c d e f g show ?thesis by blast
qed

text \<open>
  The claim as stated fails in the reference pipeline: a three-sample mono clip loaded
  at 8 kHz comes out with 8000 samples, not 16000.
\<close>

theorem fixed_length_reference_counterexample:
  "size1 (First_preprocess_audio \<lparr>shape = [1, 3], data = [1, 2, 3]\<rparr> 8000) \<noteq> 16000"
  by (simp add: First_preprocess_audio_def size1_def pad_last_def)

section \<open>The claims about dataset construction\<close>

text \<open>
  C5, as amended. When the lines of the manifest are pairwise distinct, the dictionary
  of the binarized pipeline is defined exactly on the vocabulary and is a bijection
  between it and \<open>{0, ..., num_classes - 1}\<close>. Whatever the manifest, the builder
  returns, and every sample's label is below \<open>num_classes\<close> and is the index that the
  one dictionary, built before the dataset, gives to a command of the vocabulary. In the
  reference pipeline the builder returns whenever the root can be listed; the vocabulary
  is the sorted listing, there are as many labels as files, every label is a position in
  the vocabulary, and position and entry correspond one to one when the listing has no
  repeated name.
\<close>

theorem label_index_mapping:
  "(distinct cmds \<longrightarrow>
      dom (command_to_index cmds) = set cmds
      \<and> bij_betw (\<lambda>c. the (command_to_index cmds c)) (set cmds) {0..<num_classes cmds})
   \<and> (\<exists>ds out'. KWS_full_dataset fs ddir cmds out = Inr (ds, out')
        \<and> (\<forall>s \<in> set (kws_samples ds). snd s < num_classes cmds
              \<and> (\<exists>c \<in> set cmds. command_to_index cmds c = Some (snd s))))
   \<and> (fs root_dir = Some names \<longrightarrow>
        (\<exists>fds. First_init fs root_dir out = Inr (fds, out)
           \<and> first_commands fds = sort names
           \<and> length (first_labels fds) = length (first_all_files fds)
           \<and> (\<forall>l \<in> set (first_labels fds). l < length (first_commands fds))
           \<and> (distinct names \<longrightarrow>
                bij_betw (\<lambda>i. first_commands fds ! i) {0..<length (first_commands fds)}
                  (set (first_commands fds)))))"
proof (intro conjI impI)
  assume "distinct cmds"
  then show "bij_betw (\<lambda>c. the (command_to_index cmds c)) (set cmds) {0..<num_classes cmds}"
    by (rule command_to_index_bij)
next
  show "dom (command_to_index cmds) = set cmds"
    by (rule command_to_index_dom)
next
  let ?smpls = "concat (map (KWS_command_samples fs (command_to_index cmds) ddir) cmds)"
  let ?ds = "\<lparr>kws_dataset_dir = ddir, kws_commands = cmds, kws_samples = ?smpls\<rparr>"
  have "snd s < num_classes cmds \<and> (\<exists>c \<in> set cmds. command_to_index cmds c = Some (snd s))"
    if "s \<in> set ?smpls" for s
  proof -
    from that obtain c where c: "c \<in> set cmds"
        "s \<in> set (KWS_command_samples fs (command_to_index cmds) ddir c)" by auto
    from KWS_command_samples_label [OF c(2)] have l: "command_to_index cmds c = Some (snd s)"
      by simp
    from command_to_index_Some [OF l] c(1) l show ?thesis
      by (auto simp: num_classes_def)
  qed
  then show "\<exists>ds out'. KWS_full_dataset fs ddir cmds out = Inr (ds, out')
        \<and> (\<forall>s \<in> set (kws_samples ds). snd s < num_classes cmds
              \<and> (\<exists>c \<in> set cmds. command_to_index cmds c = Some (snd s)))"
    using KWS_full_dataset_char [of fs ddir cmds out] by (intro exI [of _ ?ds]) simp
next
  assume fs: "fs root_dir = Some names"
  let ?f = "First_command_files fs root_dir"
  let ?la = "concat (map (\<lambda>(i, c). replicate (length (?f c)) i) (enumerate 0 (sort names)))"
  let ?fa = "concat (map (\<lambda>(i, c). ?f c) (enumerate 0 (sort names)))"
  let ?fds = "\<lparr>first_root_dir = root_dir, first_commands = sort names,
             first_all_files = ?fa, first_labels = ?la\<rparr>"
  have a: "First_init fs root_dir out = Inr (?fds, out)"
    using fs by (rule First_init_char)
  have b: "length ?la = length ?fa" by (rule length_concat_labels)
  have c: "\<forall>l \<in> set ?la. l < length (sort names)"
    using enumerate_labels_member [of _ ?f "sort names"] by blast
  have d: "distinct names \<longrightarrow>
      bij_betw (\<lambda>i. sort names ! i) {0..<length (sort names)} (set (sort names))"
    by (auto intro!: bij_betw_nth)
  show "\<exists>fds. First_init fs root_dir out = Inr (fds, out)
           \<and> first_commands fds = sort names
           \<and> length (first_labels fds) = length (first_all_files fds)
           \<and> (\<forall>l \<in> set (first_labels fds). l < length (first_commands fds))
           \<and> (distinct names \<longrightarrow>
                bij_betw (\<lambda>i. first_commands fds ! i) {0..<length (first_commands fds)}
                  (set (first_commands fds)))"
    using a b c d by (intro exI [of _ ?fds]) simp
qed

theorem label_index_mapping_witness:
  "distinct [''yes'', ''no'']
   \<and> [''data'' \<mapsto> [''yes'', ''no'']] ''data'' = Some [''yes'', ''no'']
   \<and> bij_betw (\<lambda>c. the (command_to_index [''yes'', ''no''] c)) (set [''yes'', ''no''])
        {0..<num_classes [''yes'', ''no'']}
   \<and> (\<exists>fds. First_init [''data'' \<mapsto> [''yes'', ''no'']] ''data'' [] = Inr (fds, [])
         \<and> first_commands fds = sort [''yes'', ''no'']
         \<and> bij_betw (\<lambda>i. first_commands fds ! i) {0..<length (first_commands fds)}
              (set (first_commands fds)))"
proof -
  have a: "distinct [''yes'', ''no'']" by simp
  have b: "[''data'' \<mapsto> [''yes'', ''no'']] ''data'' = Some [''yes'', ''no'']" by simp
  note t = label_index_mapping [of "[''yes'', ''no'']" "[''data'' \<mapsto> [''yes'', ''no'']]"
      "''data''" "[]" "''data''" "[''yes'', ''no'']"]
  from t a have c: "bij_betw (\<lambda>c. the (command_to_index [''yes'', ''no''] c)) (set [''yes'', ''no''])
        {0..<num_classes [''yes'', ''no'']}"
    by blast
  from t b a have d: "\<exists>fds. First_init [''data'' \<mapsto> [''yes'', ''no'']] ''data'' [] = Inr (fds, [])
         \<and> first_commands fds = sort [''yes'', ''no'']
         \<and> bij_betw (\<lambda>i. first_commands fds ! i) {0..<length (first_commands fds)}
              (set (first_commands fds))"
    by blast
  from a b c d show ?thesis by blast
qed

text \<open>
  The claim as stated fails for a manifest with a repeated line: for the two lines
  \<open>yes\<close>, \<open>yes\<close> the dictionary holds the single entry \<open>yes \<mapsto> 1\<close> while \<open>num_classes\<close>
  is \<open>2\<close>, so no bijection onto \<open>{0, 1}\<close> exists.
\<close>

theorem label_index_duplicates_counterexample:
  "command_to_index [''yes'', ''yes''] ''yes'' = Some 1
   \<and> num_classes [''yes'', ''yes''] = 2
   \<and> \<not> bij_betw (\<lambda>c. the (command_to_index [''yes'', ''yes''] c)) (set [''yes'', ''yes''])
         {0..<num_classes [''yes'', ''yes'']}"
proof (intro conjI notI)
  show "command_to_index [''yes'', ''yes''] ''yes'' = Some 1"
    by (simp add: command_to_index_def enumerate_simps)
  show "num_classes [''yes'', ''yes''] = 2"
    by (simp add: num_classes_def)
  assume "bij_betw (\<lambda>c. the (command_to_index [''yes'', ''yes''] c)) (set [''yes'', ''yes''])
         {0..<num_classes [''yes'', ''yes'']}"
  then have "card (set [''yes'', ''yes'']) = card {0..<num_classes [''yes'', ''yes'']}"
    by (rule bij_betw_same_card)
  then show False by (simp add: num_classes_def)
qed

text \<open>
  C9, as amended. In the binarized pipeline, when the directory of a command of the
  vocabulary is missing, the builder returns a dataset, the warning naming that directory
  has been printed, no sample carries the label of that command, and the samples are
  those the builder collects when the command is left out of the list. In the reference
  pipeline an entry of the root listing that is no directory is skipped as well, no
  sample carries its position as label, and nothing is printed.
\<close>

theorem missing_directory_skipped:
  "(command \<in> set cmds \<and> \<not> os_path_isdir fs (os_path_join ddir command) \<longrightarrow>
      (\<exists>ds out'. KWS_full_dataset fs ddir cmds out = Inr (ds, out')
         \<and> KWS_warning (os_path_join ddir command) \<in> set out'
         \<and> (\<forall>s \<in> set (kws_samples ds). command_to_index cmds command \<noteq> Some (snd s))
         \<and> (\<exists>ds' out''.
               KWS_init fs (command_to_index cmds) ddir (filter (\<lambda>c. c \<noteq> command) cmds) out
                 = Inr (ds', out'')
               \<and> kws_samples ds' = kws_samples ds)))
   \<and> (fs root_dir = Some names \<and> entry \<in> set names
        \<and> \<not> os_path_isdir fs (os_path_join root_dir entry) \<longrightarrow>
      (\<exists>fds. First_init fs root_dir out = Inr (fds, out)
         \<and> entry \<in> set (first_commands fds)
         \<and> (\<forall>l \<in> set (first_labels fds). first_commands fds ! l \<noteq> entry)))"
proof (intro conjI impI)
  assume h: "command \<in> set cmds \<and> \<not> os_path_isdir fs (os_path_join ddir command)"
  let ?c2i = "command_to_index cmds"
  let ?smpls = "concat (map (KWS_command_samples fs ?c2i ddir) cmds)"
  let ?ds = "\<lparr>kws_dataset_dir = ddir, kws_commands = cmds, kws_samples = ?smpls\<rparr>"
  let ?out = "out @ concat (map (KWS_command_warnings fs ddir) cmds)"
  let ?cmds' = "filter (\<lambda>c. c \<noteq> command) cmds"
  have run: "KWS_full_dataset fs ddir cmds out = Inr (?ds, ?out)"
    by (rule KWS_full_dataset_char)
  have "KWS_command_warnings fs ddir command = [KWS_warning (os_path_join ddir command)]"
    using h by (simp add: KWS_command_warnings_def)
  then have warn: "KWS_warning (os_path_join ddir command) \<in> set ?out"
    using h by force
  have none: "command_to_index cmds command \<noteq> Some (snd s)" if "s \<in> set ?smpls" for s
  proof
    assume eq: "command_to_index cmds command = Some (snd s)"
    from that obtain c where c: "c \<in> set cmds" "s \<in> set (KWS_command_samples fs ?c2i ddir c)"
      by auto
    from KWS_command_samples_label [OF c(2)]
    have l: "?c2i c = Some (snd s)" and dir: "os_path_isdir fs (os_path_join ddir c)"
      by simp_all
    from command_to_index_Some [OF l] command_to_index_Some [OF eq] have "c = command" by simp
    with dir h show False by simp
  qed
  have empty: "KWS_command_samples fs ?c2i ddir command = []"
    using h by (simp add: KWS_command_samples_def os_path_isdir_def)
  have key: "\<And>c. c \<in> set ?cmds' \<Longrightarrow> ?c2i c \<noteq> None"
    using command_to_index_member [of _ cmds] by fastforce
  have "KWS_init fs ?c2i ddir ?cmds' out
      = Inr (\<lparr>kws_dataset_dir = ddir, kws_commands = ?cmds',
               kws_samples = concat (map (KWS_command_samples fs ?c2i ddir) ?cmds')\<rparr>,
             out @ concat (map (KWS_command_warnings fs ddir) ?cmds'))"
    using KWS_scan_commands_char [of ?cmds' ?c2i fs ddir "[]" out, OF key]
    by (simp add: KWS_init_def)
  moreover have "concat (map (KWS_command_samples fs ?c2i ddir) ?cmds') = ?smpls"
    using empty by (rule concat_map_filter_empty)
  ultimately have skip: "\<exists>ds' out''. KWS_init fs ?c2i ddir ?cmds' out = Inr (ds', out'')
      \<and> kws_samples ds' = kws_samples ?ds"
    by simp
  show "\<exists>ds out'. KWS_full_dataset fs ddir cmds out = Inr (ds, out')
         \<and> KWS_warning (os_path_join ddir command) \<in> set out'
         \<and> (\<forall>s \<in> set (kws_samples ds). command_to_index cmds command \<noteq> Some (snd s))
         \<and> (\<exists>ds' out''.
               KWS_init fs (command_to_index cmds) ddir (filter (\<lambda>c. c \<noteq> command) cmds) out
                 = Inr (ds', out'')
               \<and> kws_samples ds' = kws_samples ds)"
    using run warn none skip by (intro exI [of _ ?ds] exI [of _ ?out]) simp
next
  assume h: "fs root_dir = Some names \<and> entry \<in> set names
        \<and> \<not> os_path_isdir fs (os_path_join root_dir entry)"
  let ?f = "First_command_files fs root_dir"
  let ?la = "concat (map (\<lambda>(i, c). replicate (length (?f c)) i) (enumerate 0 (sort names)))"
  let ?fa = "concat (map (\<lambda>(i, c). ?f c) (enumerate 0 (sort names)))"
  let ?fds = "\<lparr>first_root_dir = root_dir, first_commands = sort names,
             first_all_files = ?fa, first_labels = ?la\<rparr>"
  have a: "First_init fs root_dir out = Inr (?fds, out)"
    using h by (intro First_init_char) simp
  have e: "?f entry = []"
    using h by (simp add: First_command_files_def os_path_isdir_def)
  have c: "\<forall>l \<in> set ?la. sort names ! l \<noteq> entry"
    using enumerate_labels_member [of _ ?f "sort names"] e by metis
  show "\<exists>fds. First_init fs root_dir out = Inr (fds, out)
         \<and> entry \<in> set (first_commands fds)
         \<and> (\<forall>l \<in> set (first_labels fds). first_commands fds ! l \<noteq> entry)"
    using a c h by (intro exI [of _ ?fds]) simp
qed

theorem missing_directory_skipped_witness:
  "''no'' \<in> set [''yes'', ''no'']
   \<and> \<not> os_path_isdir [''data'' \<mapsto> [''yes'', ''no''], ''data/yes'' \<mapsto> [''a.wav'']]
         (os_path_join ''data'' ''no'')
   \<and> [''data'' \<mapsto> [''yes'', ''no''], ''data/yes'' \<mapsto> [''a.wav'']] ''data'' = Some [''yes'', ''no'']
   \<and> (\<exists>ds out'. KWS_full_dataset [''data'' \<mapsto> [''yes'', ''no''], ''data/yes'' \<mapsto> [''a.wav'']]
                   ''data'' [''yes'', ''no''] [] = Inr (ds, out')
         \<and> KWS_warning (os_path_join ''data'' ''no'') \<in> set out')
   \<and> (\<exists>fds. First_init [''data'' \<mapsto> [''yes'', ''no''], ''data/yes'' \<mapsto> [''a.wav'']] ''data'' []
               = Inr (fds, [])
         \<and> ''no'' \<in> set (first_commands fds))"
proof -
  let ?fs = "[''data'' \<mapsto> [''yes'', ''no''], ''data/yes'' \<mapsto> [''a.wav'']]"
  have a: "''no'' \<in> set [''yes'', ''no'']" by simp
  have b: "\<not> os_path_isdir ?fs (os_path_join ''data'' ''no'')"
    by (simp add: os_path_isdir_def os_path_join_def)
  have c: "?fs ''data'' = Some [''yes'', ''no'']" by simp
  note t = missing_directory_skipped [of "''no''" "[''yes'', ''no'']" ?fs "''data''" "[]"
      "''data''" "[''yes'', ''no'']" "''no''"]
  from t a b have d: "\<exists>ds out'. KWS_full_dataset ?fs ''data'' [''yes'', ''no''] [] = Inr (ds, out')
         \<and> KWS_warning (os_path_join ''data'' ''no'') \<in> set out'"
    by blast
  from t a b c have e: "\<exists>fds. First_init ?fs ''data'' [] = Inr (fds, [])
         \<and> ''no'' \<in> set (first_commands fds)"
    by blast
  from a b c d e show ?thesis by blast
qed

text \<open>
  The claim as stated fails for the builder of the reference pipeline: with a root whose
  only entry \<open>README.md\<close> is no directory it returns an empty dataset and what has been
  printed is still empty, so no warning was printed.
\<close>

theorem reference_builder_silent_counterexample:
  "\<not> os_path_isdir [''speech_commands'' \<mapsto> [''README.md'']]
        (os_path_join ''speech_commands'' ''README.md'')
   \<and> First_init [''speech_commands'' \<mapsto> [''README.md'']] ''speech_commands'' []
       = Inr (\<lparr>first_root_dir = ''speech_commands'', first_commands = [''README.md''],
                first_all_files = [], first_labels = []\<rparr>, [])"
  by (simp add: First_init_def os_listdir_def os_path_isdir_def os_path_join_def)

section \<open>The claim about evaluation\<close>

text \<open>
  C8. When the network returns, for every batch of the test loader, one row of at least
  one class score per example, and the batches hold at least one example, the evaluation
  returns: \<open>total\<close> is the number of examples of all batches, \<open>correct\<close> is the number
  of examples whose label is the index of the first maximum of their row of scores (an
  index of the row, at which no score of the row is larger), the value reported is
  \<open>100 * correct / total\<close>, it lies between \<open>0\<close> and \<open>100\<close>, and the line printed
  carries it in the format \<^verbatim>\<open>{:.2f}\<close> followed by the percent sign.
\<close>

theorem evaluation_accuracy:
  assumes ok: "\<forall>(f, l) \<in> set batches. \<exists>outputs k. model f = Inr outputs
        \<and> shape outputs = [length l, k] \<and> wf_tensor outputs \<and> 0 < k"
    and nonempty: "0 < sum_list (map (\<lambda>(f, l). length l) batches)"
  shows "\<exists>correct total_n acc.
      evaluation_loop model batches (0, 0) = Inr (correct, total_n)
    \<and> total_n = sum_list (map (\<lambda>(f, l). length l) batches)
    \<and> correct = sum_list (map (\<lambda>(f, l). batch_hits (projr (model f)) l) batches)
    \<and> correct \<le> total_n
    \<and> acc = 100 * real correct / real total_n
    \<and> evaluation format_2f model batches out
        = Inr (acc, out @ [''Accuratezza del modello sul test set: '' @ format_2f acc @ ''%''])
    \<and> 0 \<le> acc \<and> acc \<le> 100
    \<and> (\<forall>(f, l) \<in> set batches. \<forall>r \<in> set (rows (projr (model f))).
          fst (first_max r) < length r \<and> (\<forall>v \<in> set r. v \<le> r ! fst (first_max r)))"
proof -
  let ?c = "sum_list (map (\<lambda>(f, l). batch_hits (projr (model f)) l) batches)"
  let ?t = "sum_list (map (\<lambda>(f, l). length l) batches)"
  let ?a = "100 * real ?c / real ?t"
  have ok': "\<And>f l. (f, l) \<in> set batches \<Longrightarrow>
      \<exists>outputs k. model f = Inr outputs \<and> shape outputs = [length l, k] \<and> 0 < k"
    using ok by fastforce
  have loop: "evaluation_loop model batches (0, 0) = Inr (?c, ?t)"
    using evaluation_loop_char [of batches model 0 0, OF ok'] by simp
  have le: "?c \<le> ?t" by (rule hits_le_total)
  note acc = accuracy_bounds [OF le nonempty]
  have ev: "evaluation format_2f model batches out
      = Inr (?a, out @ [''Accuratezza del modello sul test set: '' @ format_2f ?a @ ''%''])"
    using loop acc(1) by (simp add: evaluation_def)
  have arg: "fst (first_max r) < length r \<and> (\<forall>v \<in> set r. v \<le> r ! fst (first_max r))"
    if "(f, l) \<in> set batches" "r \<in> set (rows (projr (model f)))" for f l r
  proof -
    from ok that(1) obtain outputs k where o: "model f = Inr outputs"
        "shape outputs = [length l, k]" "wf_tensor outputs" "0 < k"
      by fastforce
    have len: "length (data outputs) = length l * k"
      using o(2,3) by (simp add: wf_tensor_def numel_def)
    from that(2) o(1) obtain i where "i < length l" "r = row outputs i"
      using rows_2d [OF o(2)] by auto
    then have "length r = k" using length_row [OF len o(2)] by simp
    then have "r \<noteq> []" using o(4) by auto
    then show ?thesis using first_max_props [of r] by simp
  qed
  show ?thesis
    using loop le ev acc(2,3) arg
    by (intro exI [of _ ?c] exI [of _ ?t] exI [of _ ?a]) blast
qed

theorem evaluation_accuracy_witness:
  "(\<exists>outputs k. (Inr \<lparr>shape = [2, 2], data = [1, 3, 2, 0]\<rparr> :: error + real tensor) = Inr outputs
        \<and> shape outputs = [length [1, 1 :: nat], k] \<and> wf_tensor outputs \<and> 0 < k)
   \<and> 0 < sum_list (map (\<lambda>(f, l). length l) [(\<lparr>shape = [2, 2], data = [1, 3, 2, 0 :: real]\<rparr>, [1, 1 :: nat])])
   \<and> evaluation_loop Inr [(\<lparr>shape = [2, 2], data = [1, 3, 2, 0]\<rparr>, [1, 1])] (0, 0) = Inr (1, 2)
   \<and> evaluation (\<lambda>a. ''50.00'') Inr [(\<lparr>shape = [2, 2], data = [1, 3, 2, 0]\<rparr>, [1, 1])] []
       = Inr (50, [''Accuratezza del modello sul test set: 50.00%''])"
proof -
  let ?B = "[(\<lparr>shape = [2, 2], data = [1, 3, 2, 0 :: real]\<rparr>, [1, 1 :: nat])]"
  have a: "\<forall>(f, l) \<in> set ?B. \<exists>outputs k. Inr f = (Inr outputs :: error + real tensor)
        \<and> shape outputs = [length l, k] \<and> wf_tensor outputs \<and> 0 < k"
    by (simp add: wf_tensor_def numel_def)
  have b: "0 < sum_list (map (\<lambda>(f, l). length l) ?B)" by simp
  have h: "batch_hits \<lparr>shape = [2, 2], data = [1, 3, 2, 0]\<rparr> [1, 1] = 1"
    by (simp add: batch_hits_def rows_def row_def upt_conv_Cons)
  from evaluation_accuracy [OF a b, of "\<lambda>a. ''50.00''" "[]"] obtain correct total_n acc where
    r: "evaluation_loop Inr ?B (0, 0) = Inr (correct, total_n)"
       "total_n = sum_list (map (\<lambda>(f, l). length l) ?B)"
       "correct = sum_list (map (\<lambda>(f, l). batch_hits (projr (Inr f :: error + real tensor)) l) ?B)"
       "acc = 100 * real correct / real total_n"
       "evaluation (\<lambda>a. ''50.00'') Inr ?B []
        = Inr (acc, [] @ [''Accuratezza del modello sul test set: '' @ (\<lambda>a. ''50.00'') acc @ ''%''])"
    by blast
  from r(2) have t: "total_n = 2" by simp
  from r(3) h have c: "correct = 1" by simp
  from r(4) t c have "acc = 50" by simp
  moreover have "\<exists>outputs k. (Inr \<lparr>shape = [2, 2], data = [1, 3, 2, 0]\<rparr> :: error + real tensor) = Inr outputs
        \<and> shape outputs = [length [1, 1 :: nat], k] \<and> wf_tensor outputs \<and> 0 < k"
    by (simp add: wf_tensor_def numel_def)
  ultimately show ?thesis using r(1,5) t c b by simp
qed

section \<open>The claim about the weight export\<close>

text \<open>
  C6. The export of a bias \<open>model.0.bias\<close> with the two elements \<open>a\<close> and \<open>b\<close> writes
  the file \<open>model_0_bias.txt\<close>; its content is the rendering of \<open>a\<close>, a line feed, the
  rendering of \<open>b\<close>, a line feed. The file is named as the claim says and holds as many
  numbers as the parameter has elements, in row-major order, but one per line: the
  delimiter \<open>,\<close> handed to \<^verbatim>\<open>np.savetxt\<close> separates the columns of a row, and the flattened
  array is written as a single column, so no comma is written between the numbers.
\<close>

theorem export_one_value_per_line:
  "First_export fmt [(''model.0.bias'', \<lparr>shape = [2], data = [a, b]\<rparr>)] Map.empty []
     = Inr ([''model_0_bias.txt'' \<mapsto> fmt a @ newline @ fmt b @ newline],
            [''Pesi del layer '' @ [CHR 0x27] @ ''model.0.bias'' @ [CHR 0x27] @ '' salvati in ''
               @ [CHR 0x27] @ ''model_0_bias.txt'' @ [CHR 0x27]])"
  by (simp add: First_export_def First_collect_weights_def np_savetxt_flatten Let_def
      First_filename_def str_replace_def)

end
